theory Spec2Isabelle
  imports Main
begin

section \<open>Data model\<close>

text \<open>
  The controller of \<^verbatim>\<open>controllers/httpproxy_controller.go\<close> works on Contour
  \<^verbatim>\<open>HTTPProxy\<close> objects. The Go types come from the Contour and apimachinery
  modules; only the fields the controller reads or writes are kept. Strings are Go
  strings, that is byte sequences, and \<open>string\<close> is a list of 8-bit characters.
\<close>

text \<open>\<^verbatim>\<open>contourv1.HeaderMatchCondition\<close>: the non-prefix kind of match condition
  (Go field \<^verbatim>\<open>Name\<close> is \<open>HeaderName\<close> here).\<close>

record HeaderMatchCondition =
  HeaderName :: string
  Present :: bool
  Contains :: string
  Exact :: string

text \<open>\<^verbatim>\<open>contourv1.MatchCondition\<close>; \<^verbatim>\<open>Header\<close> is a pointer, \<open>None\<close> is nil.\<close>

record MatchCondition =
  Prefix :: string
  Header :: "HeaderMatchCondition option"

text \<open>\<^verbatim>\<open>contourv1.Include\<close>.\<close>

record Include =
  Name :: string
  Namespace :: string
  Conditions :: "MatchCondition list"

text \<open>\<^verbatim>\<open>v1.ObjectMeta\<close>. \<^verbatim>\<open>DeletionTimestamp\<close> is a pointer to a time; the time
  is an integer offset from Go's zero instant.\<close>

record ObjectMeta =
  Name :: string
  Namespace :: string
  Annotations :: "string \<rightharpoonup> string"
  Finalizers :: "string list"
  DeletionTimestamp :: "int option"

record HTTPProxySpec =
  Includes :: "Include list"

record HTTPProxy =
  ObjectMeta :: ObjectMeta
  Spec :: HTTPProxySpec

text \<open>\<^verbatim>\<open>types.NamespacedName\<close>; \<^verbatim>\<open>client.ObjectKey\<close> is an alias of it.\<close>

record NamespacedName =
  Namespace :: string
  Name :: string

type_synonym ObjectKey = NamespacedName

text \<open>\<^verbatim>\<open>ctrl.Request\<close> and \<^verbatim>\<open>ctrl.Result\<close>.\<close>

record Request =
  NamespacedName :: NamespacedName

record Result =
  Requeue :: bool
  RequeueAfter :: int

definition emptyResult :: Result where
  "emptyResult = \<lparr>Requeue = False, RequeueAfter = 0\<rparr>"

text \<open>
  Go's \<^verbatim>\<open>error\<close> values. The first two are what the client returns
  (\<^verbatim>\<open>apierrors.IsNotFound\<close> recognises the first); the other three are the
  \<^verbatim>\<open>xerrors.Errorf\<close> values of the controller, with the argument of the format.
\<close>

datatype error =
    NotFound
  | StoreError string
  | InvalidParent "string list"
  | InclusionNotAllowed string
  | DuplicatePrefix

fun IsNotFound :: "error \<Rightarrow> bool" where
  "IsNotFound NotFound = True"
| "IsNotFound _ = False"

text \<open>
  \<^verbatim>\<open>client.Client\<close> is an interface of controller-runtime. It is a parameter of
  the reconciler: a record of the two methods the controller calls, over a store state
  \<open>'s\<close>. \<^verbatim>\<open>Get\<close> reads; \<^verbatim>\<open>Update\<close> returns the new store and, on success, the
  object as the store returned it (the Go method writes it back through the pointer).
\<close>

record UpdateOptions =
  FieldManager :: string

record 's Client =
  Get :: "'s \<Rightarrow> ObjectKey \<Rightarrow> error + HTTPProxy"
  Update :: "'s \<Rightarrow> HTTPProxy \<Rightarrow> UpdateOptions list \<Rightarrow> (error + HTTPProxy) \<times> 's"

text \<open>\<^verbatim>\<open>HTTPProxyReconciler\<close>; the logger and the scheme have no effect on the store.\<close>

record 's HTTPProxyReconciler =
  Client :: "'s Client"

definition allowInclusionAnnotation :: string where
  "allowInclusionAnnotation = ''oyako.atelierhsn.com/allow-inclusion''"

definition parentRefAnnotation :: string where
  "parentRefAnnotation = ''oyako.atelierhsn.com/parent''"

definition pathPrefixAnnotation :: string where
  "pathPrefixAnnotation = ''oyako.atelierhsn.com/prefix''"

definition finalizerName :: string where
  "finalizerName = ''oyako.atelierhsn.com/finalizer''"

section \<open>Library functions the controller calls\<close>

text \<open>Indexing a Go \<^verbatim>\<open>map[string]string\<close>: the empty string when the key is missing.\<close>

definition lookup :: "(string \<rightharpoonup> string) \<Rightarrow> string \<Rightarrow> string" where
  "lookup m k = (case m k of None \<Rightarrow> [] | Some v \<Rightarrow> v)"

text \<open>\<^verbatim>\<open>strings.Split(s, sep)\<close> for a separator of one byte: every occurrence splits,
  and a string without the separator is returned as the only segment.\<close>

primrec Split :: "string \<Rightarrow> char \<Rightarrow> string list" where
  "Split [] sep = [[]]"
| "Split (c # cs) sep =
     (if c = sep then [] # Split cs sep
      else (case Split cs sep of [] \<Rightarrow> [[c]] | w # ws \<Rightarrow> (c # w) # ws))"

text \<open>\<^verbatim>\<open>(*metav1.Time).IsZero\<close>: nil or the zero instant.\<close>

definition IsZero :: "int option \<Rightarrow> bool" where
  "IsZero t = (case t of None \<Rightarrow> True | Some x \<Rightarrow> x = 0)"

text \<open>\<^verbatim>\<open>controllerutil.AddFinalizer\<close> appends the finalizer unless it is there;
  \<^verbatim>\<open>controllerutil.RemoveFinalizer\<close> deletes every occurrence.\<close>

definition AddFinalizer :: "HTTPProxy \<Rightarrow> string \<Rightarrow> HTTPProxy" where
  "AddFinalizer o' finalizer =
     (let f = Finalizers (ObjectMeta o') in
      if finalizer \<in> set f then o'
      else o'\<lparr>ObjectMeta := (ObjectMeta o')\<lparr>Finalizers := f @ [finalizer]\<rparr>\<rparr>)"

definition RemoveFinalizer :: "HTTPProxy \<Rightarrow> string \<Rightarrow> HTTPProxy" where
  "RemoveFinalizer o' finalizer =
     o'\<lparr>ObjectMeta := (ObjectMeta o')
          \<lparr>Finalizers := filter (\<lambda>e. e \<noteq> finalizer) (Finalizers (ObjectMeta o'))\<rparr>\<rparr>"

section \<open>The controller\<close>

text \<open>\<^verbatim>\<open>hasFinalizer\<close>: the loop over \<^verbatim>\<open>h.GetFinalizers()\<close>.\<close>

primrec hasFinalizer_loop :: "string list \<Rightarrow> string \<Rightarrow> bool" where
  "hasFinalizer_loop [] finalizer = False"
| "hasFinalizer_loop (f # fs) finalizer =
     (if f = finalizer then True else hasFinalizer_loop fs finalizer)"

definition hasFinalizer :: "HTTPProxy \<Rightarrow> string \<Rightarrow> bool" where
  "hasFinalizer h finalizer = hasFinalizer_loop (Finalizers (ObjectMeta h)) finalizer"

text \<open>\<^verbatim>\<open>getParentProxy\<close>: the reference is split at every slash, and only the number
  of segments is checked before the lookup.\<close>

definition getParentProxy :: "'s HTTPProxyReconciler \<Rightarrow> 's \<Rightarrow> string \<Rightarrow> error + HTTPProxy" where
  "getParentProxy r s parentRef =
     (let namespacedName = Split parentRef CHR ''/'' in
      if length namespacedName \<noteq> 2 then Inl (InvalidParent namespacedName)
      else
        let key = \<lparr>NamespacedName.Namespace = namespacedName ! 0,
                   NamespacedName.Name = namespacedName ! 1\<rparr>
        in Get (Client r) s key)"

text \<open>\<^verbatim>\<open>isPrefixDuplicate\<close>: the inner loop over the conditions of one include, and
  the outer loop, which skips the includes of the child itself.\<close>

primrec isPrefixDuplicate_conditions :: "MatchCondition list \<Rightarrow> string \<Rightarrow> bool" where
  "isPrefixDuplicate_conditions [] prefix = False"
| "isPrefixDuplicate_conditions (condition # conditions) prefix =
     (if Prefix condition = prefix then True
      else isPrefixDuplicate_conditions conditions prefix)"

primrec isPrefixDuplicate :: "Include list \<Rightarrow> ObjectMeta \<Rightarrow> string \<Rightarrow> bool" where
  "isPrefixDuplicate [] childMeta prefix = False"
| "isPrefixDuplicate (include # includes) childMeta prefix =
     (if Include.Namespace include = ObjectMeta.Namespace childMeta
         \<and> Include.Name include = ObjectMeta.Name childMeta
      then isPrefixDuplicate includes childMeta prefix
      else if isPrefixDuplicate_conditions (Conditions include) prefix then True
      else isPrefixDuplicate includes childMeta prefix)"

text \<open>\<^verbatim>\<open>findIncludeRef\<close>: the index of the first include of the child, or \<open>-1\<close>.
  The loop carries the index \<^verbatim>\<open>idx\<close>.\<close>

primrec findIncludeRef_loop :: "int \<Rightarrow> Include list \<Rightarrow> ObjectMeta \<Rightarrow> int" where
  "findIncludeRef_loop idx [] childMeta = - 1"
| "findIncludeRef_loop idx (include # includes) childMeta =
     (if Include.Namespace include = ObjectMeta.Namespace childMeta
         \<and> Include.Name include = ObjectMeta.Name childMeta
      then idx
      else findIncludeRef_loop (idx + 1) includes childMeta)"

definition findIncludeRef :: "Include list \<Rightarrow> ObjectMeta \<Rightarrow> int" where
  "findIncludeRef includes childMeta = findIncludeRef_loop 0 includes childMeta"

text \<open>\<^verbatim>\<open>cleanupParentProxy\<close>. The slice expression
  \<^verbatim>\<open>append(includes[:childIdx], includes[childIdx+1:]...)\<close> is in range, since
  \<^verbatim>\<open>childIdx\<close> is an index of the list.\<close>

definition cleanupParentProxy ::
  "'s HTTPProxyReconciler \<Rightarrow> 's \<Rightarrow> HTTPProxy \<Rightarrow> error option \<times> 's" where
  "cleanupParentProxy r s childProxy =
     (let parentRef = lookup (Annotations (ObjectMeta childProxy)) parentRefAnnotation in
      case getParentProxy r s parentRef of
        Inl err \<Rightarrow> (Some err, s)
      | Inr parentProxy \<Rightarrow>
          if lookup (Annotations (ObjectMeta parentProxy)) allowInclusionAnnotation \<noteq> ''true''
          then (Some (InclusionNotAllowed parentRef), s)
          else
            let includes = Includes (Spec parentProxy);
                childIdx = findIncludeRef includes (ObjectMeta childProxy)
            in
              if childIdx < 0 then (None, s)
              else
                let includes' = take (nat childIdx) includes @ drop (nat (childIdx + 1)) includes;
                    parentProxy' = parentProxy\<lparr>Spec := (Spec parentProxy)\<lparr>Includes := includes'\<rparr>\<rparr>
                in
                  (case Update (Client r) s parentProxy' [\<lparr>FieldManager = ''oyako''\<rparr>] of
                     (Inl err, s') \<Rightarrow> (Some err, s')
                   | (Inr _, s') \<Rightarrow> (None, s')))"

text \<open>\<^verbatim>\<open>reconcileParentProxy\<close>, returning \<^verbatim>\<open>(stop, err)\<close> and the store.
  \<^verbatim>\<open>fmt.Sprintf("/%s", childProxy.Name)\<close> is the slash followed by the name. The
  assignment to \<^verbatim>\<open>Includes[childIdx].Conditions\<close> is in range.\<close>

definition reconcileParentProxy ::
  "'s HTTPProxyReconciler \<Rightarrow> 's \<Rightarrow> HTTPProxy \<Rightarrow> bool \<times> error option \<times> 's" where
  "reconcileParentProxy r s childProxy =
     (let parentRef = lookup (Annotations (ObjectMeta childProxy)) parentRefAnnotation in
      case getParentProxy r s parentRef of
        Inl err \<Rightarrow> (False, Some err, s)
      | Inr parentProxy \<Rightarrow>
          if lookup (Annotations (ObjectMeta parentProxy)) allowInclusionAnnotation \<noteq> ''true''
          then (True, Some (InclusionNotAllowed parentRef), s)
          else
            let prefix0 = lookup (Annotations (ObjectMeta childProxy)) pathPrefixAnnotation;
                prefix = (if prefix0 = [] then CHR ''/'' # ObjectMeta.Name (ObjectMeta childProxy)
                          else prefix0);
                includes = Includes (Spec parentProxy)
            in
              if isPrefixDuplicate includes (ObjectMeta childProxy) prefix
              then (True, Some DuplicatePrefix, s)
              else
                let prefixCondition = [\<lparr>Prefix = prefix, Header = None\<rparr>];
                    childIdx = findIncludeRef includes (ObjectMeta childProxy);
                    includes' =
                      (if childIdx \<ge> 0
                       then includes[nat childIdx :=
                              (includes ! nat childIdx)\<lparr>Conditions := prefixCondition\<rparr>]
                       else includes @
                              [\<lparr>Include.Name = ObjectMeta.Name (ObjectMeta childProxy),
                                Include.Namespace = ObjectMeta.Namespace (ObjectMeta childProxy),
                                Conditions = prefixCondition\<rparr>]);
                    parentProxy' = parentProxy\<lparr>Spec := (Spec parentProxy)\<lparr>Includes := includes'\<rparr>\<rparr>
                in
                  (case Update (Client r) s parentProxy' [\<lparr>FieldManager = ''oyako''\<rparr>] of
                     (Inl err, s') \<Rightarrow> (False, Some err, s')
                   | (Inr _, s') \<Rightarrow> (True, None, s')))"

text \<open>\<^verbatim>\<open>Reconcile\<close>. The first \<open>let\<close> is the branch on the deletion timestamp for
  an object that is not being deleted: it attaches the finalizer and leaves the error of
  the update, the object and the store to the call of \<^verbatim>\<open>reconcileParentProxy\<close>.\<close>

definition Reconcile ::
  "'s HTTPProxyReconciler \<Rightarrow> 's \<Rightarrow> Request \<Rightarrow> (Result \<times> error option) \<times> 's" where
  "Reconcile r s req =
     (let key = \<lparr>NamespacedName.Namespace = NamespacedName.Namespace (NamespacedName req),
                 NamespacedName.Name = NamespacedName.Name (NamespacedName req)\<rparr> in
      case Get (Client r) s key of
        Inl err \<Rightarrow>
          if IsNotFound err then ((emptyResult, None), s) else ((emptyResult, Some err), s)
      | Inr httpProxy \<Rightarrow>
          if lookup (Annotations (ObjectMeta httpProxy)) parentRefAnnotation = []
          then ((emptyResult, None), s)
          else if IsZero (DeletionTimestamp (ObjectMeta httpProxy)) then
            (case (if \<not> hasFinalizer httpProxy finalizerName
                   then (case Update (Client r) s (AddFinalizer httpProxy finalizerName) [] of
                           (Inl err, s') \<Rightarrow> (Some err, httpProxy, s')
                         | (Inr httpProxy', s') \<Rightarrow> (None, httpProxy', s'))
                   else (None, httpProxy, s)) of
               (Some err, _, s') \<Rightarrow> ((emptyResult, Some err), s')
             | (None, httpProxy', s') \<Rightarrow>
                 (case reconcileParentProxy r s' httpProxy' of
                    (stop, err, s'') \<Rightarrow>
                      if stop then ((emptyResult, None), s'') else ((emptyResult, err), s'')))
          else if hasFinalizer httpProxy finalizerName then
            (case cleanupParentProxy r s httpProxy of
               (Some err, s') \<Rightarrow> ((emptyResult, Some err), s')
             | (None, s') \<Rightarrow>
                 (case Update (Client r) s' (RemoveFinalizer httpProxy finalizerName) [] of
                    (Inl err, s'') \<Rightarrow> ((emptyResult, Some err), s'')
                  | (Inr _, s'') \<Rightarrow> ((emptyResult, None), s'')))
          else ((emptyResult, None), s))"

section \<open>An in-memory resource store\<close>

text \<open>
  The resource store is the API server, outside the repository. To run the controller
  on concrete stores, this client keeps the objects in a list: \<open>Get\<close> returns the first
  object with the key, or \<open>NotFound\<close>; \<open>Update\<close> replaces the objects that have the key
  of the given object, and fails with \<open>NotFound\<close> when there is none.
\<close>

definition objectKey :: "HTTPProxy \<Rightarrow> ObjectKey" where
  "objectKey h = \<lparr>NamespacedName.Namespace = ObjectMeta.Namespace (ObjectMeta h),
                  NamespacedName.Name = ObjectMeta.Name (ObjectMeta h)\<rparr>"

primrec memGet :: "HTTPProxy list \<Rightarrow> ObjectKey \<Rightarrow> error + HTTPProxy" where
  "memGet [] key = Inl NotFound"
| "memGet (h # hs) key = (if objectKey h = key then Inr h else memGet hs key)"

definition memUpdate ::
  "HTTPProxy list \<Rightarrow> HTTPProxy \<Rightarrow> UpdateOptions list \<Rightarrow> (error + HTTPProxy) \<times> HTTPProxy list" where
  "memUpdate hs obj opts =
     (if list_ex (\<lambda>h. objectKey h = objectKey obj) hs
      then (Inr obj, map (\<lambda>h. if objectKey h = objectKey obj then obj else h) hs)
      else (Inl NotFound, hs))"

definition memReconciler :: "(HTTPProxy list) HTTPProxyReconciler" where
  "memReconciler = \<lparr>Client = \<lparr>Get = memGet, Update = memUpdate\<rparr>\<rparr>"

section \<open>Vocabulary of the properties\<close>

text \<open>
  The words of the specification, written over the data of the controller. An include
  belongs to a child when namespace and name agree; this is the test that both loops of
  the controller make.
\<close>

definition sameIdentity :: "ObjectMeta \<Rightarrow> Include \<Rightarrow> bool" where
  "sameIdentity childMeta include =
     (Include.Namespace include = ObjectMeta.Namespace childMeta
      \<and> Include.Name include = ObjectMeta.Name childMeta)"

text \<open>An include carries a prefix when one of its conditions has it.\<close>

definition hasPrefix :: "Include \<Rightarrow> string \<Rightarrow> bool" where
  "hasPrefix include p = (\<exists>c \<in> set (Conditions include). Prefix c = p)"

text \<open>The annotation extractor of the specification: the parent reference of a child,
  the permission of a parent, and the prefix a child asks for (the prefix annotation when
  present and not empty, else the slash followed by the name of the child).\<close>

definition parentRefOf :: "HTTPProxy \<Rightarrow> string" where
  "parentRefOf childProxy = lookup (Annotations (ObjectMeta childProxy)) parentRefAnnotation"

definition allowsInclusion :: "HTTPProxy \<Rightarrow> bool" where
  "allowsInclusion parentProxy =
     (Annotations (ObjectMeta parentProxy) allowInclusionAnnotation = Some ''true'')"

definition desiredPrefix :: "HTTPProxy \<Rightarrow> string" where
  "desiredPrefix childProxy =
     (case Annotations (ObjectMeta childProxy) pathPrefixAnnotation of
        None \<Rightarrow> CHR ''/'' # ObjectMeta.Name (ObjectMeta childProxy)
      | Some p \<Rightarrow> if p = [] then CHR ''/'' # ObjectMeta.Name (ObjectMeta childProxy) else p)"

text \<open>The states of a child: its deletion is requested; it carries the cleanup
  marker; it is Terminating, when it names a parent and both hold.\<close>

definition deletionRequested :: "HTTPProxy \<Rightarrow> bool" where
  "deletionRequested h = (\<not> IsZero (DeletionTimestamp (ObjectMeta h)))"

definition hasMarker :: "HTTPProxy \<Rightarrow> bool" where
  "hasMarker h = (finalizerName \<in> set (Finalizers (ObjectMeta h)))"

definition Terminating :: "HTTPProxy \<Rightarrow> bool" where
  "Terminating childProxy =
     (parentRefOf childProxy \<noteq> [] \<and> deletionRequested childProxy \<and> hasMarker childProxy)"

text \<open>A parent with another include list, and the options of the two updates of a
  parent.\<close>

definition withIncludes :: "HTTPProxy \<Rightarrow> Include list \<Rightarrow> HTTPProxy" where
  "withIncludes parentProxy includes = parentProxy\<lparr>Spec := (Spec parentProxy)\<lparr>Includes := includes\<rparr>\<rparr>"

definition oyako :: "UpdateOptions list" where
  "oyako = [\<lparr>FieldManager = ''oyako''\<rparr>]"

text \<open>
  The lines of \<^verbatim>\<open>reconcileParentProxy\<close> between the duplicate check and the update,
  as a function of the list read from the parent: \<open>prefixEntry\<close> is the value of
  \<^verbatim>\<open>prefixCondition\<close>, \<open>mergedIncludes\<close> the list handed to the update. Lemma
  \<open>reconcileParentProxy_run\<close> below proves that the controller writes this list; the
  claims are stated without it.
\<close>

definition prefixEntry :: "HTTPProxy \<Rightarrow> MatchCondition list" where
  "prefixEntry childProxy = [\<lparr>Prefix = desiredPrefix childProxy, Header = None\<rparr>]"

definition mergedIncludes :: "Include list \<Rightarrow> HTTPProxy \<Rightarrow> Include list" where
  "mergedIncludes includes childProxy =
     (let childIdx = findIncludeRef includes (ObjectMeta childProxy) in
      if childIdx \<ge> 0
      then includes[nat childIdx := (includes ! nat childIdx)\<lparr>Conditions := prefixEntry childProxy\<rparr>]
      else includes @
             [\<lparr>Include.Name = ObjectMeta.Name (ObjectMeta childProxy),
               Include.Namespace = ObjectMeta.Namespace (ObjectMeta childProxy),
               Conditions = prefixEntry childProxy\<rparr>])"

section \<open>Objects of the test suite\<close>

text \<open>
  \<^verbatim>\<open>parentProxyFromTemplate\<close> and \<^verbatim>\<open>childProxyFromTemplate\<close> of the controller's
  test file, restricted to the fields of the model, and the include fixture of its tests.
\<close>

definition parentProxyFromTemplate :: "string \<Rightarrow> string \<Rightarrow> HTTPProxy" where
  "parentProxyFromTemplate namespace name =
     \<lparr>ObjectMeta = \<lparr>ObjectMeta.Name = name, ObjectMeta.Namespace = namespace,
                     Annotations = [allowInclusionAnnotation \<mapsto> ''true''],
                     Finalizers = [], DeletionTimestamp = None\<rparr>,
      Spec = \<lparr>Includes = []\<rparr>\<rparr>"

definition childProxyFromTemplate :: "string \<Rightarrow> string \<Rightarrow> string \<Rightarrow> string \<Rightarrow> HTTPProxy" where
  "childProxyFromTemplate namespace name parentNamespacedName prefix =
     \<lparr>ObjectMeta = \<lparr>ObjectMeta.Name = name, ObjectMeta.Namespace = namespace,
                     Annotations =
                       (if prefix \<noteq> []
                        then [parentRefAnnotation \<mapsto> parentNamespacedName,
                              pathPrefixAnnotation \<mapsto> prefix]
                        else [parentRefAnnotation \<mapsto> parentNamespacedName]),
                     Finalizers = [], DeletionTimestamp = None\<rparr>,
      Spec = \<lparr>Includes = []\<rparr>\<rparr>"

definition includeOf :: "string \<Rightarrow> string \<Rightarrow> string \<Rightarrow> Include" where
  "includeOf namespace name prefix =
     \<lparr>Include.Name = name, Include.Namespace = namespace,
      Conditions = [\<lparr>Prefix = prefix, Header = None\<rparr>]\<rparr>"

text \<open>The scenarios of the specification: the parent \<^verbatim>\<open>root/example\<close> with a given
  include list, the same parent without the permission, three children, an include with
  two conditions, a child whose deletion is requested, and the request for a child.\<close>

definition rootWith :: "Include list \<Rightarrow> HTTPProxy" where
  "rootWith includes = withIncludes (parentProxyFromTemplate ''root'' ''example'') includes"

definition closedRoot :: HTTPProxy where
  "closedRoot =
     (parentProxyFromTemplate ''root'' ''example'')
       \<lparr>ObjectMeta := (ObjectMeta (parentProxyFromTemplate ''root'' ''example''))
                        \<lparr>Annotations := Map.empty\<rparr>\<rparr>"

definition hoge :: Include where
  "hoge = includeOf ''hoge'' ''hoge'' ''/hoge''"

definition hogeChild :: HTTPProxy where
  "hogeChild = childProxyFromTemplate ''hoge'' ''hoge'' ''root/example'' ''/hoge''"

definition sales :: HTTPProxy where
  "sales = childProxyFromTemplate ''sales-team'' ''sales'' ''root/example'' ''/hoge''"

definition blog :: "string \<Rightarrow> HTTPProxy" where
  "blog prefix = childProxyFromTemplate ''blog-team'' ''blog'' ''root/example'' prefix"

definition blogHeader :: Include where
  "blogHeader =
     \<lparr>Include.Name = ''blog'', Include.Namespace = ''blog-team'',
      Conditions = [\<lparr>Prefix = ''/old'', Header = None\<rparr>,
                    \<lparr>Prefix = [],
                     Header = Some \<lparr>HeaderName = ''x-team'', Present = True,
                                    Contains = [], Exact = []\<rparr>\<rparr>]\<rparr>"

definition deleted :: "HTTPProxy \<Rightarrow> HTTPProxy" where
  "deleted h = h\<lparr>ObjectMeta := (ObjectMeta h)\<lparr>Finalizers := [finalizerName],
                                                  DeletionTimestamp := Some 1\<rparr>\<rparr>"

definition requestFor :: "HTTPProxy \<Rightarrow> Request" where
  "requestFor h = \<lparr>NamespacedName = objectKey h\<rparr>"

section \<open>The loops and the library functions, characterised\<close>

lemma findIncludeRef_loop_eq:
  "findIncludeRef_loop i xs m =
     (if \<exists>x\<in>set xs. sameIdentity m x
      then i + int (length (takeWhile (\<lambda>x. \<not> sameIdentity m x) xs)) else - 1)"
  by (induction xs arbitrary: i) (auto simp: sameIdentity_def)

lemma findIncludeRef_eq:
  "findIncludeRef xs m =
     (if \<exists>x\<in>set xs. sameIdentity m x
      then int (length (takeWhile (\<lambda>x. \<not> sameIdentity m x) xs)) else - 1)"
  by (simp add: findIncludeRef_def findIncludeRef_loop_eq)

lemma findIncludeRef_first:
  assumes "includes = pre @ x # post" "sameIdentity m x" "\<forall>y\<in>set pre. \<not> sameIdentity m y"
  shows "findIncludeRef includes m = int (length pre)"
proof -
  have "takeWhile (\<lambda>x. \<not> sameIdentity m x) includes = pre"
    using assms by (simp add: takeWhile_append2)
  moreover have "\<exists>x\<in>set includes. sameIdentity m x" using assms by auto
  ultimately show ?thesis by (simp add: findIncludeRef_eq)
qed

lemma isPrefixDuplicate_conditions_eq:
  "isPrefixDuplicate_conditions cs p = (\<exists>c\<in>set cs. Prefix c = p)"
  by (induction cs) auto

lemma isPrefixDuplicate_eq:
  "isPrefixDuplicate xs m p = (\<exists>x\<in>set xs. \<not> sameIdentity m x \<and> hasPrefix x p)"
  by (induction xs) (auto simp: sameIdentity_def hasPrefix_def isPrefixDuplicate_conditions_eq)

lemma hasFinalizer_loop_eq: "hasFinalizer_loop fs f = (f \<in> set fs)"
  by (induction fs) auto

lemma Split_length: "length (Split s c) = Suc (count_list s c)"
  by (induction s) (auto split: list.splits)

lemma Split_none: "count_list s c = 0 \<Longrightarrow> Split s c = [s]"
  by (induction s) (auto split: if_splits)

lemma Split_one:
  "count_list s c = 1 \<Longrightarrow>
   Split s c = [takeWhile (\<lambda>x. x \<noteq> c) s, tl (dropWhile (\<lambda>x. x \<noteq> c) s)]"
  by (induction s) (auto simp: Split_none split: if_splits)

lemma split_first:
  assumes "\<exists>x\<in>set xs. Q x"
  shows "xs = takeWhile (\<lambda>x. \<not> Q x) xs @ hd (dropWhile (\<lambda>x. \<not> Q x) xs) # tl (dropWhile (\<lambda>x. \<not> Q x) xs)
         \<and> Q (hd (dropWhile (\<lambda>x. \<not> Q x) xs))"
proof -
  from assms have ne: "dropWhile (\<lambda>x. \<not> Q x) xs \<noteq> []" by (auto simp: dropWhile_eq_Nil_conv)
  then have "Q (hd (dropWhile (\<lambda>x. \<not> Q x) xs))" using hd_dropWhile by blast
  moreover have "xs = takeWhile (\<lambda>x. \<not> Q x) xs @ dropWhile (\<lambda>x. \<not> Q x) xs" by simp
  ultimately show ?thesis using ne by (metis list.collapse)
qed

lemma excise_unique:
  assumes "length (filter Q (pre @ x # post)) \<le> 1" and "Q x"
  shows "\<forall>y\<in>set (pre @ post). \<not> Q y"
proof -
  from assms have "length (filter Q pre) + length (filter Q post) = 0" by simp
  then have "filter Q pre = []" "filter Q post = []" by simp_all
  then show ?thesis by (auto simp: filter_empty_conv)
qed

lemma request_key:
  "\<lparr>NamespacedName.Namespace = NamespacedName.Namespace k,
    NamespacedName.Name = NamespacedName.Name k\<rparr> = k"
  by (cases k) simp

lemma allowsInclusion_lookup:
  "(lookup (Annotations (ObjectMeta p)) allowInclusionAnnotation = ''true'') = allowsInclusion p"
  by (auto simp: lookup_def allowsInclusion_def split: option.splits)

lemma desiredPrefix_lookup:
  "(if lookup (Annotations (ObjectMeta c)) pathPrefixAnnotation = []
    then CHR ''/'' # ObjectMeta.Name (ObjectMeta c)
    else lookup (Annotations (ObjectMeta c)) pathPrefixAnnotation) = desiredPrefix c"
  by (auto simp: lookup_def desiredPrefix_def split: option.splits)

lemma sameIdentity_Conditions [simp]:
  "sameIdentity m (x\<lparr>Conditions := cs\<rparr>) = sameIdentity m x"
  by (simp add: sameIdentity_def)

lemma objectKey_withIncludes [simp]: "objectKey (withIncludes p L) = objectKey p"
  by (simp add: objectKey_def withIncludes_def)

lemma allowsInclusion_withIncludes [simp]: "allowsInclusion (withIncludes p L) = allowsInclusion p"
  by (simp add: allowsInclusion_def withIncludes_def)

lemma Includes_withIncludes [simp]: "Includes (Spec (withIncludes p L)) = L"
  by (simp add: withIncludes_def)

lemma withIncludes_twice [simp]: "withIncludes (withIncludes p L) L' = withIncludes p L'"
  by (simp add: withIncludes_def)

section \<open>The three procedures, step by step\<close>

lemma reconcileParentProxy_run:
  assumes "getParentProxy r s (parentRefOf child) = Inr parent"
  shows "reconcileParentProxy r s child =
     (if \<not> allowsInclusion parent then (True, Some (InclusionNotAllowed (parentRefOf child)), s)
      else if isPrefixDuplicate (Includes (Spec parent)) (ObjectMeta child) (desiredPrefix child)
      then (True, Some DuplicatePrefix, s)
      else (case Update (Client r) s
                  (withIncludes parent (mergedIncludes (Includes (Spec parent)) child)) oyako of
              (Inl err, s') \<Rightarrow> (False, Some err, s')
            | (Inr _, s') \<Rightarrow> (True, None, s')))"
  using assms
  unfolding reconcileParentProxy_def parentRefOf_def [symmetric]
  by (simp add: Let_def desiredPrefix_lookup allowsInclusion_lookup mergedIncludes_def
      prefixEntry_def withIncludes_def oyako_def)

lemma reconcileParentProxy_parse_error:
  assumes "getParentProxy r s (parentRefOf child) = Inl e"
  shows "reconcileParentProxy r s child = (False, Some e, s)"
  using assms unfolding reconcileParentProxy_def parentRefOf_def [symmetric] by simp

lemma reconcileParentProxy_success:
  assumes "reconcileParentProxy r s child = (True, None, s')"
  shows "\<exists>parent w. getParentProxy r s (parentRefOf child) = Inr parent \<and> allowsInclusion parent
      \<and> \<not> isPrefixDuplicate (Includes (Spec parent)) (ObjectMeta child) (desiredPrefix child)
      \<and> Update (Client r) s (withIncludes parent (mergedIncludes (Includes (Spec parent)) child)) oyako
          = (Inr w, s')"
proof (cases "getParentProxy r s (parentRefOf child)")
  case (Inl e)
  with assms show ?thesis by (simp add: reconcileParentProxy_parse_error)
next
  case (Inr parent)
  from assms show ?thesis
    unfolding reconcileParentProxy_run [OF Inr]
    using Inr by (auto split: if_splits prod.splits sum.splits)
qed

lemma cleanupParentProxy_run:
  assumes "getParentProxy r s (parentRefOf child) = Inr parent"
  shows "cleanupParentProxy r s child =
     (if \<not> allowsInclusion parent then (Some (InclusionNotAllowed (parentRefOf child)), s)
      else if findIncludeRef (Includes (Spec parent)) (ObjectMeta child) < 0 then (None, s)
      else (case Update (Client r) s
                  (withIncludes parent
                     (take (nat (findIncludeRef (Includes (Spec parent)) (ObjectMeta child)))
                        (Includes (Spec parent))
                      @ drop (nat (findIncludeRef (Includes (Spec parent)) (ObjectMeta child) + 1))
                          (Includes (Spec parent)))) oyako of
              (Inl err, s') \<Rightarrow> (Some err, s')
            | (Inr _, s') \<Rightarrow> (None, s')))"
  using assms
  unfolding cleanupParentProxy_def parentRefOf_def [symmetric]
  by (simp add: Let_def allowsInclusion_lookup withIncludes_def oyako_def)

lemma cleanupParentProxy_get_error:
  assumes "getParentProxy r s (parentRefOf child) = Inl e"
  shows "cleanupParentProxy r s child = (Some e, s)"
  using assms unfolding cleanupParentProxy_def parentRefOf_def [symmetric] by simp

lemma Reconcile_terminating:
  assumes "Get (Client r) s (NamespacedName req) = Inr child" and "Terminating child"
  shows "Reconcile r s req =
     (case cleanupParentProxy r s child of
        (Some err, s') \<Rightarrow> ((emptyResult, Some err), s')
      | (None, s') \<Rightarrow>
          (case Update (Client r) s' (RemoveFinalizer child finalizerName) [] of
             (Inl err, s'') \<Rightarrow> ((emptyResult, Some err), s'')
           | (Inr w, s'') \<Rightarrow> ((emptyResult, None), s'')))"
  using assms
  unfolding Reconcile_def Terminating_def deletionRequested_def hasMarker_def parentRefOf_def
  by (simp add: hasFinalizer_def hasFinalizer_loop_eq request_key)

lemma Reconcile_unmanaged:
  assumes "Get (Client r) s (NamespacedName req) = Inr child" and "parentRefOf child = []"
  shows "Reconcile r s req = ((emptyResult, None), s)"
  using assms unfolding Reconcile_def parentRefOf_def by (simp add: request_key)

lemma mergedIncludes_found:
  assumes "includes = pre @ x # post" "sameIdentity (ObjectMeta child) x"
    "\<forall>y\<in>set pre. \<not> sameIdentity (ObjectMeta child) y"
  shows "mergedIncludes includes child = pre @ x\<lparr>Conditions := prefixEntry child\<rparr> # post"
    and "findIncludeRef includes (ObjectMeta child) = int (length pre)"
proof -
  have tw: "takeWhile (\<lambda>x. \<not> sameIdentity (ObjectMeta child) x) includes = pre"
    using assms by (simp add: takeWhile_append2)
  have ex: "\<exists>x\<in>set includes. sameIdentity (ObjectMeta child) x" using assms by auto
  show idx: "findIncludeRef includes (ObjectMeta child) = int (length pre)"
    using ex tw by (simp add: findIncludeRef_eq)
  show "mergedIncludes includes child = pre @ x\<lparr>Conditions := prefixEntry child\<rparr> # post"
    unfolding mergedIncludes_def idx by (simp add: assms(1))
qed

lemma mergedIncludes_absent:
  assumes "\<forall>y\<in>set includes. \<not> sameIdentity (ObjectMeta child) y"
  shows "mergedIncludes includes child = includes @
             [\<lparr>Include.Name = ObjectMeta.Name (ObjectMeta child),
               Include.Namespace = ObjectMeta.Namespace (ObjectMeta child),
               Conditions = prefixEntry child\<rparr>]"
  using assms by (simp add: mergedIncludes_def findIncludeRef_eq)

lemma mergedIncludes_cases:
  "(\<exists>pre x post. L = pre @ x # post \<and> sameIdentity (ObjectMeta child) x
       \<and> (\<forall>y\<in>set pre. \<not> sameIdentity (ObjectMeta child) y)
       \<and> mergedIncludes L child = pre @ x\<lparr>Conditions := prefixEntry child\<rparr> # post)
   \<or> ((\<forall>y\<in>set L. \<not> sameIdentity (ObjectMeta child) y)
       \<and> mergedIncludes L child = L @
             [\<lparr>Include.Name = ObjectMeta.Name (ObjectMeta child),
               Include.Namespace = ObjectMeta.Namespace (ObjectMeta child),
               Conditions = prefixEntry child\<rparr>])"
proof (cases "\<exists>x\<in>set L. sameIdentity (ObjectMeta child) x")
  case True
  let ?m = "ObjectMeta child"
  let ?pre = "takeWhile (\<lambda>x. \<not> sameIdentity ?m x) L"
  let ?x = "hd (dropWhile (\<lambda>x. \<not> sameIdentity ?m x) L)"
  let ?post = "tl (dropWhile (\<lambda>x. \<not> sameIdentity ?m x) L)"
  from split_first [OF True] have sp: "L = ?pre @ ?x # ?post" and sx: "sameIdentity ?m ?x"
    by blast+
  have np: "\<forall>y\<in>set ?pre. \<not> sameIdentity ?m y" by (auto dest: set_takeWhileD)
  from mergedIncludes_found(1) [OF sp sx np] sp sx np show ?thesis by blast
next
  case False
  then show ?thesis using mergedIncludes_absent [of L child] by simp
qed

lemma mergedIncludes_entry:
  fixes child incs
  defines "L' \<equiv> mergedIncludes incs child"
  defines "i \<equiv> findIncludeRef L' (ObjectMeta child)"
  shows "0 \<le> i \<and> nat i < length L' \<and> sameIdentity (ObjectMeta child) (L' ! nat i)
       \<and> Conditions (L' ! nat i) = prefixEntry child"
proof (cases "\<exists>x\<in>set incs. sameIdentity (ObjectMeta child) x")
  case True
  let ?m = "ObjectMeta child"
  let ?pre = "takeWhile (\<lambda>x. \<not> sameIdentity ?m x) incs"
  let ?x = "hd (dropWhile (\<lambda>x. \<not> sameIdentity ?m x) incs)"
  let ?post = "tl (dropWhile (\<lambda>x. \<not> sameIdentity ?m x) incs)"
  from split_first [OF True] have sp: "incs = ?pre @ ?x # ?post" and sx: "sameIdentity ?m ?x"
    by blast+
  have np: "\<forall>y\<in>set ?pre. \<not> sameIdentity ?m y" by (auto dest: set_takeWhileD)
  have m: "L' = ?pre @ ?x\<lparr>Conditions := prefixEntry child\<rparr> # ?post"
    unfolding L'_def by (rule mergedIncludes_found(1) [OF sp sx np])
  have "i = int (length ?pre)"
    unfolding i_def using sx by (intro findIncludeRef_first [OF m _ np]) simp
  then show ?thesis using sx by (simp add: m)
next
  case False
  let ?m = "ObjectMeta child"
  let ?new = "\<lparr>Include.Name = ObjectMeta.Name ?m, Include.Namespace = ObjectMeta.Namespace ?m,
               Conditions = prefixEntry child\<rparr>"
  from False have np: "\<forall>y\<in>set incs. \<not> sameIdentity ?m y" by simp
  have m: "L' = incs @ ?new # []"
    unfolding L'_def using mergedIncludes_absent [OF np] by simp
  have sn: "sameIdentity ?m ?new" by (simp add: sameIdentity_def)
  have "i = int (length incs)"
    unfolding i_def by (rule findIncludeRef_first [OF m sn np])
  then show ?thesis using sn by (simp add: m)
qed

lemma mergedIncludes_idem:
  "mergedIncludes (mergedIncludes L child) child = mergedIncludes L child"
  using mergedIncludes_cases [of L child]
proof (elim disjE exE conjE)
  fix pre x post
  assume sp: "L = pre @ x # post" and sx: "sameIdentity (ObjectMeta child) x"
    and np: "\<forall>y\<in>set pre. \<not> sameIdentity (ObjectMeta child) y"
    and m: "mergedIncludes L child = pre @ x\<lparr>Conditions := prefixEntry child\<rparr> # post"
  have "sameIdentity (ObjectMeta child) (x\<lparr>Conditions := prefixEntry child\<rparr>)" using sx by simp
  from mergedIncludes_found(1) [OF m this np] show ?thesis by (simp add: m)
next
  let ?new = "\<lparr>Include.Name = ObjectMeta.Name (ObjectMeta child),
               Include.Namespace = ObjectMeta.Namespace (ObjectMeta child),
               Conditions = prefixEntry child\<rparr>"
  assume np: "\<forall>y\<in>set L. \<not> sameIdentity (ObjectMeta child) y"
    and m: "mergedIncludes L child = L @ [?new]"
  have sn: "sameIdentity (ObjectMeta child) ?new" by (simp add: sameIdentity_def)
  from mergedIncludes_found(1) [OF m sn np] show ?thesis by (simp add: m)
qed

lemma isPrefixDuplicate_merged:
  "isPrefixDuplicate (mergedIncludes L child) (ObjectMeta child) p
     = isPrefixDuplicate L (ObjectMeta child) p"
  using mergedIncludes_cases [of L child]
  by (elim disjE exE conjE) (auto simp: isPrefixDuplicate_eq sameIdentity_def)

section \<open>The in-memory store\<close>

lemma memGet_Inr: "memGet hs key = Inr p \<Longrightarrow> objectKey p = key \<and> p \<in> set hs"
  by (induction hs) (auto split: if_splits)

lemma memGet_replace:
  assumes "memGet hs key = Inr p" and "objectKey p' = key"
  shows "memGet (map (\<lambda>h. if objectKey h = key then p' else h) hs) key = Inr p'"
  using assms by (induction hs) (auto split: if_splits)

lemma memUpdate_present:
  assumes "memGet hs key = Inr p" and "objectKey p' = key"
  shows "memUpdate hs p' opts = (Inr p', map (\<lambda>h. if objectKey h = key then p' else h) hs)"
proof -
  from memGet_Inr [OF assms(1)] have "\<exists>h\<in>set hs. objectKey h = key" by blast
  then show ?thesis using assms(2) by (simp add: memUpdate_def list_ex_iff)
qed

lemma getParentProxy_mem:
  "getParentProxy memReconciler hs parentRef =
     (if length (Split parentRef CHR ''/'') \<noteq> 2
      then Inl (InvalidParent (Split parentRef CHR ''/''))
      else memGet hs \<lparr>NamespacedName.Namespace = Split parentRef CHR ''/'' ! 0,
                       NamespacedName.Name = Split parentRef CHR ''/'' ! 1\<rparr>)"
  by (simp add: getParentProxy_def memReconciler_def Let_def)

text \<open>The equations that run the controller on the objects of the test suite.\<close>

lemmas example_defs =
  parentProxyFromTemplate_def childProxyFromTemplate_def includeOf_def rootWith_def
  closedRoot_def hoge_def hogeChild_def sales_def blog_def blogHeader_def deleted_def
  requestFor_def withIncludes_def oyako_def
  allowInclusionAnnotation_def parentRefAnnotation_def pathPrefixAnnotation_def finalizerName_def
  parentRefOf_def allowsInclusion_def desiredPrefix_def sameIdentity_def hasPrefix_def
  Terminating_def deletionRequested_def hasMarker_def IsZero_def lookup_def objectKey_def memUpdate_def memReconciler_def

lemmas controller_defs =
  getParentProxy_def reconcileParentProxy_def cleanupParentProxy_def Reconcile_def
  findIncludeRef_def hasFinalizer_def AddFinalizer_def RemoveFinalizer_def

section \<open>The claims\<close>

subsection \<open>C1: a prefix held by another child is refused\<close>

text \<open>
  Claim C1. The parent named by the child is fetched. When its include list has an
  include of another identity that carries the prefix the child asks for,
  \<^verbatim>\<open>reconcileParentProxy\<close> stops with an error and returns the store it was given: no
  update is issued, so the list of the parent is left as it was; and the error is the
  duplicate-prefix error whenever the parent allows inclusion, the check that comes
  first. When the parent allows inclusion and every include that carries the prefix is
  the child's own (the child declares again the prefix it has), the duplicate check
  passes: the parent is handed to the update of the store, and the reconciliation fails
  only if that update does.
\<close>

theorem C1_duplicate_prefix:
  assumes "getParentProxy r s (parentRefOf child) = Inr parent"
  shows "((\<exists>x\<in>set (Includes (Spec parent)).
             \<not> sameIdentity (ObjectMeta child) x \<and> hasPrefix x (desiredPrefix child))
          \<longrightarrow> (\<exists>e. reconcileParentProxy r s child = (True, Some e, s))
              \<and> (allowsInclusion parent
                   \<longrightarrow> reconcileParentProxy r s child = (True, Some DuplicatePrefix, s)))
       \<and> (allowsInclusion parent
           \<and> (\<forall>x\<in>set (Includes (Spec parent)).
                 hasPrefix x (desiredPrefix child) \<longrightarrow> sameIdentity (ObjectMeta child) x)
          \<longrightarrow> (\<exists>parent' s'.
                 (\<exists>w. Update (Client r) s parent' oyako = (Inr w, s')
                       \<and> reconcileParentProxy r s child = (True, None, s'))
               \<or> (\<exists>e. Update (Client r) s parent' oyako = (Inl e, s')
                       \<and> reconcileParentProxy r s child = (False, Some e, s'))))"
proof (intro conjI impI)
  assume "\<exists>x\<in>set (Includes (Spec parent)).
             \<not> sameIdentity (ObjectMeta child) x \<and> hasPrefix x (desiredPrefix child)"
  then have dup: "isPrefixDuplicate (Includes (Spec parent)) (ObjectMeta child) (desiredPrefix child)"
    by (simp add: isPrefixDuplicate_eq)
  then show "\<exists>e. reconcileParentProxy r s child = (True, Some e, s)"
    using assms by (simp add: reconcileParentProxy_run)
  assume "allowsInclusion parent"
  with dup show "reconcileParentProxy r s child = (True, Some DuplicatePrefix, s)"
    using assms by (simp add: reconcileParentProxy_run)
next
  let ?p = "withIncludes parent (mergedIncludes (Includes (Spec parent)) child)"
  assume own: "allowsInclusion parent
           \<and> (\<forall>x\<in>set (Includes (Spec parent)).
                 hasPrefix x (desiredPrefix child) \<longrightarrow> sameIdentity (ObjectMeta child) x)"
  then have a: "allowsInclusion parent" by simp
  from own have nd: "\<not> isPrefixDuplicate (Includes (Spec parent)) (ObjectMeta child) (desiredPrefix child)"
    by (auto simp: isPrefixDuplicate_eq)
  obtain res s' where u: "Update (Client r) s ?p oyako = (res, s')"
    by (cases "Update (Client r) s ?p oyako")
  show "\<exists>parent' s'.
          (\<exists>w. Update (Client r) s parent' oyako = (Inr w, s')
                \<and> reconcileParentProxy r s child = (True, None, s'))
        \<or> (\<exists>e. Update (Client r) s parent' oyako = (Inl e, s')
                \<and> reconcileParentProxy r s child = (False, Some e, s'))"
  proof (cases res)
    case (Inl e)
    with u nd a assms have "reconcileParentProxy r s child = (False, Some e, s')"
      by (simp add: reconcileParentProxy_run)
    with u Inl show ?thesis by blast
  next
    case (Inr w)
    with u nd a assms have "reconcileParentProxy r s child = (True, None, s')"
      by (simp add: reconcileParentProxy_run)
    with u Inr show ?thesis by blast
  qed
qed

theorem C1_duplicate_prefix_witness:
  "getParentProxy memReconciler [rootWith [hoge]] (parentRefOf sales) = Inr (rootWith [hoge])
   \<and> allowsInclusion (rootWith [hoge])
   \<and> (\<exists>x\<in>set (Includes (Spec (rootWith [hoge]))).
         \<not> sameIdentity (ObjectMeta sales) x \<and> hasPrefix x (desiredPrefix sales))
   \<and> reconcileParentProxy memReconciler [rootWith [hoge]] sales
       = (True, Some DuplicatePrefix, [rootWith [hoge]])
   \<and> getParentProxy memReconciler [rootWith [hoge]] (parentRefOf hogeChild) = Inr (rootWith [hoge])
   \<and> (\<exists>parent' s'.
       (\<exists>w. Update (Client memReconciler) [rootWith [hoge]] parent' oyako = (Inr w, s')
       \<and> reconcileParentProxy memReconciler [rootWith [hoge]] hogeChild = (True, None, s'))
       \<or> (\<exists>e. Update (Client memReconciler) [rootWith [hoge]] parent' oyako = (Inl e, s')
       \<and> reconcileParentProxy memReconciler [rootWith [hoge]] hogeChild = (False, Some e, s')))
   \<and> reconcileParentProxy memReconciler [rootWith [hoge]] hogeChild = (True, None, [rootWith [hoge]])"
proof -
  have g: "getParentProxy memReconciler [rootWith [hoge]] (parentRefOf sales) = Inr (rootWith [hoge])"
    by (simp add: example_defs getParentProxy_def)
  have a: "allowsInclusion (rootWith [hoge])"
    by (simp add: example_defs)
  have d: "\<exists>x\<in>set (Includes (Spec (rootWith [hoge]))).
         \<not> sameIdentity (ObjectMeta sales) x \<and> hasPrefix x (desiredPrefix sales)"
    by (simp add: example_defs)
  have g': "getParentProxy memReconciler [rootWith [hoge]] (parentRefOf hogeChild) = Inr (rootWith [hoge])"
    by (simp add: example_defs getParentProxy_def)
  have own: "\<forall>x\<in>set (Includes (Spec (rootWith [hoge]))).
         hasPrefix x (desiredPrefix hogeChild) \<longrightarrow> sameIdentity (ObjectMeta hogeChild) x"
    by (simp add: example_defs)
  from C1_duplicate_prefix [OF g] d a
  have r1: "reconcileParentProxy memReconciler [rootWith [hoge]] sales
       = (True, Some DuplicatePrefix, [rootWith [hoge]])" by blast
  from C1_duplicate_prefix [OF g'] a own
  have r2: "(\<exists>parent' s'.
           (\<exists>w. Update (Client memReconciler) [rootWith [hoge]] parent' oyako = (Inr w, s')
           \<and> reconcileParentProxy memReconciler [rootWith [hoge]] hogeChild = (True, None, s'))
           \<or> (\<exists>e. Update (Client memReconciler) [rootWith [hoge]] parent' oyako = (Inl e, s')
           \<and> reconcileParentProxy memReconciler [rootWith [hoge]] hogeChild = (False, Some e, s')))" by blast
  have r3: "reconcileParentProxy memReconciler [rootWith [hoge]] hogeChild = (True, None, [rootWith [hoge]])"
    by (simp add: example_defs controller_defs)
  show ?thesis by (intro conjI g a d r1 g' r2 r3)
qed

subsection \<open>C2: update in place, or append at the end\<close>

text \<open>
  Claim C2. A successful merge of a child is a successful update of the parent with a
  new include list. If the list read from the parent has an include of the child, the
  new list is the old one with the conditions of the first such include replaced by the
  single condition of the desired prefix, at the same position, and the child has as
  many includes as before (none is added). If the list has no include of the child, the
  new list is the old one followed by one include made of the name and namespace of the
  child and that condition. In both cases every include of another identity is found
  unchanged at its position.
\<close>

theorem C2_merge_upsert:
  assumes "reconcileParentProxy r s child = (True, None, s')"
  shows "\<exists>parent includes' w.
      getParentProxy r s (parentRefOf child) = Inr parent
    \<and> Update (Client r) s (withIncludes parent includes') oyako = (Inr w, s')
    \<and> ((\<exists>x\<in>set (Includes (Spec parent)). sameIdentity (ObjectMeta child) x) \<longrightarrow>
         (\<exists>pre x post. Includes (Spec parent) = pre @ x # post
            \<and> sameIdentity (ObjectMeta child) x
            \<and> (\<forall>y\<in>set pre. \<not> sameIdentity (ObjectMeta child) y)
            \<and> includes' = pre @ x\<lparr>Conditions := [\<lparr>Prefix = desiredPrefix child, Header = None\<rparr>]\<rparr> # post)
         \<and> length (filter (sameIdentity (ObjectMeta child)) includes')
             = length (filter (sameIdentity (ObjectMeta child)) (Includes (Spec parent))))
    \<and> ((\<forall>x\<in>set (Includes (Spec parent)). \<not> sameIdentity (ObjectMeta child) x) \<longrightarrow>
         includes' = Includes (Spec parent) @
           [\<lparr>Include.Name = ObjectMeta.Name (ObjectMeta child),
             Include.Namespace = ObjectMeta.Namespace (ObjectMeta child),
             Conditions = [\<lparr>Prefix = desiredPrefix child, Header = None\<rparr>]\<rparr>])
    \<and> (\<forall>j < length (Includes (Spec parent)).
          \<not> sameIdentity (ObjectMeta child) (Includes (Spec parent) ! j)
          \<longrightarrow> includes' ! j = Includes (Spec parent) ! j)"
proof -
  let ?m = "ObjectMeta child"
  from reconcileParentProxy_success [OF assms] obtain parent w where
    g: "getParentProxy r s (parentRefOf child) = Inr parent"
    and u: "Update (Client r) s (withIncludes parent (mergedIncludes (Includes (Spec parent)) child)) oyako
          = (Inr w, s')" by blast
  let ?L = "Includes (Spec parent)"
  let ?L' = "mergedIncludes ?L child"
  have found: "(\<exists>pre x post. ?L = pre @ x # post \<and> sameIdentity ?m x
            \<and> (\<forall>y\<in>set pre. \<not> sameIdentity ?m y)
            \<and> ?L' = pre @ x\<lparr>Conditions := [\<lparr>Prefix = desiredPrefix child, Header = None\<rparr>]\<rparr> # post)
         \<and> length (filter (sameIdentity ?m) ?L') = length (filter (sameIdentity ?m) ?L)"
    if ex: "\<exists>x\<in>set ?L. sameIdentity ?m x"
  proof -
    let ?pre = "takeWhile (\<lambda>x. \<not> sameIdentity ?m x) ?L"
    let ?x = "hd (dropWhile (\<lambda>x. \<not> sameIdentity ?m x) ?L)"
    let ?post = "tl (dropWhile (\<lambda>x. \<not> sameIdentity ?m x) ?L)"
    from split_first [OF ex] have sp: "?L = ?pre @ ?x # ?post" and sx: "sameIdentity ?m ?x"
      by blast+
    have np: "\<forall>y\<in>set ?pre. \<not> sameIdentity ?m y" by (auto dest: set_takeWhileD)
    have m: "?L' = ?pre @ ?x\<lparr>Conditions := prefixEntry child\<rparr> # ?post"
      by (rule mergedIncludes_found(1) [OF sp sx np])
    have "length (filter (sameIdentity ?m) (?pre @ ?x\<lparr>Conditions := prefixEntry child\<rparr> # ?post))
        = length (filter (sameIdentity ?m) (?pre @ ?x # ?post))" by simp
    then have c: "length (filter (sameIdentity ?m) ?L') = length (filter (sameIdentity ?m) ?L)"
      using m sp by metis
    from sp sx np m c show ?thesis unfolding prefixEntry_def by blast
  qed
  have absent: "?L' = ?L @
           [\<lparr>Include.Name = ObjectMeta.Name ?m, Include.Namespace = ObjectMeta.Namespace ?m,
             Conditions = [\<lparr>Prefix = desiredPrefix child, Header = None\<rparr>]\<rparr>]"
    if "\<forall>x\<in>set ?L. \<not> sameIdentity ?m x"
    using mergedIncludes_absent [OF that] by (simp add: prefixEntry_def)
  have others: "?L' ! j = ?L ! j" if j: "j < length ?L" and nj: "\<not> sameIdentity ?m (?L ! j)" for j
  proof (cases "\<exists>x\<in>set ?L. sameIdentity ?m x")
    case True
    from found [OF True] obtain pre x post where
      sp: "?L = pre @ x # post" and sx: "sameIdentity ?m x"
      and m: "?L' = pre @ x\<lparr>Conditions := [\<lparr>Prefix = desiredPrefix child, Header = None\<rparr>]\<rparr> # post"
      by blast
    have "j \<noteq> length pre" using nj sx sp by (metis nth_append_length)
    then show ?thesis unfolding m by (subst sp) (simp add: nth_append nth_Cons')
  next
    case False
    then show ?thesis using absent j by (simp add: nth_append)
  qed
  from g u found absent others show ?thesis by blast
qed

theorem C2_merge_upsert_witness:
  "reconcileParentProxy memReconciler [rootWith [hoge, includeOf ''blog-team'' ''blog'' ''/blog'']] (blog ''/newblog'')
     = (True, None, [rootWith [hoge, includeOf ''blog-team'' ''blog'' ''/newblog'']])
   \<and> (\<exists>parent includes' w.
       getParentProxy memReconciler [rootWith [hoge, includeOf ''blog-team'' ''blog'' ''/blog'']] (parentRefOf (blog ''/newblog'')) = Inr parent
       \<and> Update (Client memReconciler) [rootWith [hoge, includeOf ''blog-team'' ''blog'' ''/blog'']] (withIncludes parent includes') oyako = (Inr w, [rootWith [hoge, includeOf ''blog-team'' ''blog'' ''/newblog'']])
       \<and> ((\<exists>x\<in>set (Includes (Spec parent)). sameIdentity (ObjectMeta (blog ''/newblog'')) x) \<longrightarrow>
       (\<exists>pre x post. Includes (Spec parent) = pre @ x # post
       \<and> sameIdentity (ObjectMeta (blog ''/newblog'')) x
       \<and> (\<forall>y\<in>set pre. \<not> sameIdentity (ObjectMeta (blog ''/newblog'')) y)
       \<and> includes' = pre @ x\<lparr>Conditions := [\<lparr>Prefix = desiredPrefix (blog ''/newblog''), Header = None\<rparr>]\<rparr> # post)
       \<and> length (filter (sameIdentity (ObjectMeta (blog ''/newblog''))) includes')
       = length (filter (sameIdentity (ObjectMeta (blog ''/newblog''))) (Includes (Spec parent))))
       \<and> ((\<forall>x\<in>set (Includes (Spec parent)). \<not> sameIdentity (ObjectMeta (blog ''/newblog'')) x) \<longrightarrow>
       includes' = Includes (Spec parent) @
       [\<lparr>Include.Name = ObjectMeta.Name (ObjectMeta (blog ''/newblog'')),
       Include.Namespace = ObjectMeta.Namespace (ObjectMeta (blog ''/newblog'')),
       Conditions = [\<lparr>Prefix = desiredPrefix (blog ''/newblog''), Header = None\<rparr>]\<rparr>])
       \<and> (\<forall>j < length (Includes (Spec parent)).
       \<not> sameIdentity (ObjectMeta (blog ''/newblog'')) (Includes (Spec parent) ! j)
       \<longrightarrow> includes' ! j = Includes (Spec parent) ! j))"
proof -
  have h: "reconcileParentProxy memReconciler [rootWith [hoge, includeOf ''blog-team'' ''blog'' ''/blog'']] (blog ''/newblog'')
     = (True, None, [rootWith [hoge, includeOf ''blog-team'' ''blog'' ''/newblog'']])"
    by (simp add: example_defs controller_defs)
  show ?thesis by (intro conjI h C2_merge_upsert [OF h])
qed

subsection \<open>C3: a parent without the permission is not written\<close>

text \<open>
  Claim C3. The parent named by the child is fetched. Unless it carries the
  inclusion-permission annotation with the value \<^verbatim>\<open>true\<close>, exactly,
  \<^verbatim>\<open>reconcileParentProxy\<close> stops with the inclusion-not-permitted error and returns the
  store it was given: nothing is written and the list of the parent is unchanged.
\<close>

theorem C3_inclusion_not_permitted:
  assumes "getParentProxy r s (parentRefOf child) = Inr parent"
    and "Annotations (ObjectMeta parent) allowInclusionAnnotation \<noteq> Some ''true''"
  shows "reconcileParentProxy r s child = (True, Some (InclusionNotAllowed (parentRefOf child)), s)"
  using assms by (simp add: reconcileParentProxy_run allowsInclusion_def)

theorem C3_inclusion_not_permitted_witness:
  "getParentProxy memReconciler [closedRoot] (parentRefOf sales) = Inr closedRoot
   \<and> Annotations (ObjectMeta closedRoot) allowInclusionAnnotation \<noteq> Some ''true''
   \<and> reconcileParentProxy memReconciler [closedRoot] sales
       = (True, Some (InclusionNotAllowed ''root/example''), [closedRoot])"
proof -
  have g: "getParentProxy memReconciler [closedRoot] (parentRefOf sales) = Inr closedRoot"
    by (simp add: example_defs getParentProxy_def)
  have a: "Annotations (ObjectMeta closedRoot) allowInclusionAnnotation \<noteq> Some ''true''"
    by (simp add: example_defs)
  have p: "parentRefOf sales = ''root/example''"
    by (simp add: example_defs)
  from C3_inclusion_not_permitted [OF g a]
  have r: "reconcileParentProxy memReconciler [closedRoot] sales
       = (True, Some (InclusionNotAllowed ''root/example''), [closedRoot])"
    unfolding p .
  show ?thesis by (intro conjI g a r)
qed

subsection \<open>C4: what the cleanup of a Terminating child tolerates\<close>

text \<open>
  Against the claim as written: the store holds a child in the Terminating state whose
  parent \<^verbatim>\<open>root/example\<close> is gone. The lookup of the parent answers not-found, the
  reconciliation returns that error, and the store is the one given: the child keeps its
  cleanup marker.
\<close>

theorem C4_missing_parent_counterexample:
  "Get (Client memReconciler) [deleted (blog [])] (NamespacedName (requestFor (blog []))) = Inr (deleted (blog []))
   \<and> Terminating (deleted (blog []))
   \<and> getParentProxy memReconciler [deleted (blog [])] (parentRefOf (deleted (blog []))) = Inl NotFound
   \<and> Reconcile memReconciler [deleted (blog [])] (requestFor (blog []))
       = ((emptyResult, Some NotFound), [deleted (blog [])])
   \<and> hasFinalizer (deleted (blog [])) finalizerName"
  by (simp add: example_defs controller_defs)

text \<open>
  Claim C4, amended. The request names a child in the Terminating state. If the parent is
  fetched, allows inclusion and has no include of the child, nothing is written to the
  parent and the reconciliation goes on to detach the cleanup marker: its outcome is that
  of the update of the child without the marker. If the parent cannot be resolved or
  fetched, which is the case of a parent that is gone, the reconciliation returns that
  error and the store it was given, so the marker stays attached. If the parent is
  fetched and does not allow inclusion, the reconciliation returns the
  inclusion-not-permitted error and the store it was given.
\<close>

theorem C4_cleanup_outcomes:
  assumes "Get (Client r) s (NamespacedName req) = Inr child" and "Terminating child"
  shows "(\<forall>parent. getParentProxy r s (parentRefOf child) = Inr parent \<and> allowsInclusion parent
            \<and> (\<forall>x\<in>set (Includes (Spec parent)). \<not> sameIdentity (ObjectMeta child) x)
          \<longrightarrow> Reconcile r s req =
                (case Update (Client r) s (RemoveFinalizer child finalizerName) [] of
                   (Inl err, s') \<Rightarrow> ((emptyResult, Some err), s')
                 | (Inr w, s') \<Rightarrow> ((emptyResult, None), s')))
       \<and> (\<forall>e. getParentProxy r s (parentRefOf child) = Inl e
          \<longrightarrow> Reconcile r s req = ((emptyResult, Some e), s))
       \<and> (\<forall>parent. getParentProxy r s (parentRefOf child) = Inr parent \<and> \<not> allowsInclusion parent
          \<longrightarrow> Reconcile r s req =
                ((emptyResult, Some (InclusionNotAllowed (parentRefOf child))), s))"
proof (intro conjI allI impI)
  fix parent
  assume "getParentProxy r s (parentRefOf child) = Inr parent \<and> allowsInclusion parent
            \<and> (\<forall>x\<in>set (Includes (Spec parent)). \<not> sameIdentity (ObjectMeta child) x)"
  then have "cleanupParentProxy r s child = (None, s)"
    by (simp add: cleanupParentProxy_run findIncludeRef_eq)
  then show "Reconcile r s req =
                (case Update (Client r) s (RemoveFinalizer child finalizerName) [] of
                   (Inl err, s') \<Rightarrow> ((emptyResult, Some err), s')
                 | (Inr w, s') \<Rightarrow> ((emptyResult, None), s'))"
    by (simp add: Reconcile_terminating [OF assms])
next
  fix e
  assume "getParentProxy r s (parentRefOf child) = Inl e"
  then have "cleanupParentProxy r s child = (Some e, s)"
    by (rule cleanupParentProxy_get_error)
  then show "Reconcile r s req = ((emptyResult, Some e), s)"
    by (simp add: Reconcile_terminating [OF assms])
next
  fix parent
  assume "getParentProxy r s (parentRefOf child) = Inr parent \<and> \<not> allowsInclusion parent"
  then have "cleanupParentProxy r s child = (Some (InclusionNotAllowed (parentRefOf child)), s)"
    by (simp add: cleanupParentProxy_run)
  then show "Reconcile r s req = ((emptyResult, Some (InclusionNotAllowed (parentRefOf child))), s)"
    by (simp add: Reconcile_terminating [OF assms])
qed

theorem C4_cleanup_outcomes_witness:
  "Get (Client memReconciler) [rootWith [hoge], deleted (blog [])] (NamespacedName (requestFor (blog []))) = Inr (deleted (blog []))
   \<and> Terminating (deleted (blog []))
   \<and> getParentProxy memReconciler [rootWith [hoge], deleted (blog [])] (parentRefOf (deleted (blog []))) = Inr (rootWith [hoge])
   \<and> allowsInclusion (rootWith [hoge])
   \<and> Reconcile memReconciler [rootWith [hoge], deleted (blog [])] (requestFor (blog []))
       = ((emptyResult, None), [rootWith [hoge], RemoveFinalizer (deleted (blog [])) finalizerName])
   \<and> Get (Client memReconciler) [deleted (blog [])] (NamespacedName (requestFor (blog []))) = Inr (deleted (blog []))
   \<and> getParentProxy memReconciler [deleted (blog [])] (parentRefOf (deleted (blog []))) = Inl NotFound
   \<and> Reconcile memReconciler [deleted (blog [])] (requestFor (blog []))
       = ((emptyResult, Some NotFound), [deleted (blog [])])"
proof -
  have k: "Get (Client memReconciler) [rootWith [hoge], deleted (blog [])] (NamespacedName (requestFor (blog []))) = Inr (deleted (blog []))"
    by (simp add: example_defs)
  have t: "Terminating (deleted (blog []))"
    by (simp add: example_defs)
  have g: "getParentProxy memReconciler [rootWith [hoge], deleted (blog [])] (parentRefOf (deleted (blog []))) = Inr (rootWith [hoge])"
    by (simp add: example_defs getParentProxy_def)
  have a: "allowsInclusion (rootWith [hoge])"
    by (simp add: example_defs)
  have n: "\<forall>x\<in>set (Includes (Spec (rootWith [hoge]))). \<not> sameIdentity (ObjectMeta (deleted (blog []))) x"
    by (simp add: example_defs)
  have u: "Update (Client memReconciler) [rootWith [hoge], deleted (blog [])] (RemoveFinalizer (deleted (blog [])) finalizerName) []
             = (Inr (RemoveFinalizer (deleted (blog [])) finalizerName),
                [rootWith [hoge], RemoveFinalizer (deleted (blog [])) finalizerName])"
    by (simp add: example_defs RemoveFinalizer_def)
  from C4_cleanup_outcomes [OF k t] g a n
  have "Reconcile memReconciler [rootWith [hoge], deleted (blog [])] (requestFor (blog [])) =
          (case Update (Client memReconciler) [rootWith [hoge], deleted (blog [])] (RemoveFinalizer (deleted (blog [])) finalizerName) [] of
             (Inl err, s') \<Rightarrow> ((emptyResult, Some err), s')
           | (Inr w, s') \<Rightarrow> ((emptyResult, None), s'))" by blast
  then have r: "Reconcile memReconciler [rootWith [hoge], deleted (blog [])] (requestFor (blog []))
       = ((emptyResult, None), [rootWith [hoge], RemoveFinalizer (deleted (blog [])) finalizerName])"
    unfolding u by simp
  have k': "Get (Client memReconciler) [deleted (blog [])] (NamespacedName (requestFor (blog []))) = Inr (deleted (blog []))"
    by (simp add: example_defs)
  have g': "getParentProxy memReconciler [deleted (blog [])] (parentRefOf (deleted (blog []))) = Inl NotFound"
    by (simp add: example_defs getParentProxy_def)
  from C4_cleanup_outcomes [OF k' t] g'
  have r': "Reconcile memReconciler [deleted (blog [])] (requestFor (blog []))
       = ((emptyResult, Some NotFound), [deleted (blog [])])" by blast
  show ?thesis by (intro conjI k t g a r k' g' r')
qed

subsection \<open>C5: the parent reference\<close>

text \<open>
  Against the claim as written: the reference \<^verbatim>\<open>root/\<close> has an empty second segment.
  It splits into two segments, so it is not refused: the pair with the empty name is
  looked up in the store, and the outcome is that of the lookup.
\<close>

theorem C5_empty_segment_counterexample:
  "Split ''root/'' CHR ''/'' = [''root'', []]
   \<and> getParentProxy memReconciler [rootWith []] ''root/'' = Inl NotFound
   \<and> getParentProxy memReconciler [rootWith []] ''root/''
       \<noteq> Inl (InvalidParent (Split ''root/'' CHR ''/''))"
  by (simp add: example_defs controller_defs)

text \<open>
  Claim C5, amended. The parent reference is split at every slash. A value with exactly
  one slash is accepted: the text before the slash is the namespace and the text after
  it the name, either of which may be empty, and the pair is looked up in the store.
  Every other value (no slash, or two and more) is the parse error, which carries the
  segments.
\<close>

theorem C5_parent_reference:
  "getParentProxy r s parentRef =
     (if count_list parentRef CHR ''/'' = 1
      then Get (Client r) s
             \<lparr>NamespacedName.Namespace = takeWhile (\<lambda>c. c \<noteq> CHR ''/'') parentRef,
               NamespacedName.Name = tl (dropWhile (\<lambda>c. c \<noteq> CHR ''/'') parentRef)\<rparr>
      else Inl (InvalidParent (Split parentRef CHR ''/'')))"
  by (simp add: getParentProxy_def Split_length Split_one)

theorem C5_parent_reference_witness:
  "getParentProxy memReconciler [rootWith []] ''root/example'' = Inr (rootWith [])
   \<and> getParentProxy memReconciler [rootWith []] ''root/example/x''
       = Inl (InvalidParent [''root'', ''example'', ''x''])
   \<and> getParentProxy memReconciler [rootWith []] ''example'' = Inl (InvalidParent [''example''])
   \<and> getParentProxy memReconciler [rootWith []] ''/example'' = Inl NotFound"
proof -
  have a: "getParentProxy memReconciler [rootWith []] ''root/example'' = Inr (rootWith [])"
    using C5_parent_reference [of memReconciler "[rootWith []]" "''root/example''"]
    by (simp add: example_defs)
  have b: "getParentProxy memReconciler [rootWith []] ''root/example/x''
       = Inl (InvalidParent [''root'', ''example'', ''x''])"
    using C5_parent_reference [of memReconciler "[rootWith []]" "''root/example/x''"]
    by (simp add: example_defs)
  have c: "getParentProxy memReconciler [rootWith []] ''example'' = Inl (InvalidParent [''example''])"
    using C5_parent_reference [of memReconciler "[rootWith []]" "''example''"]
    by (simp add: example_defs)
  have d: "getParentProxy memReconciler [rootWith []] ''/example'' = Inl NotFound"
    using C5_parent_reference [of memReconciler "[rootWith []]" "''/example''"]
    by (simp add: example_defs)
  show ?thesis by (intro conjI a b c d)
qed

subsection \<open>C6: the default prefix\<close>

text \<open>
  Claim C6. The prefix annotation of the child is absent or empty. After a successful
  merge the include of the child in the list written to the parent (the one
  \<^verbatim>\<open>findIncludeRef\<close> finds) has one condition, and its prefix is the slash followed by
  the name of the child.
\<close>

theorem C6_default_prefix:
  assumes "reconcileParentProxy r s child = (True, None, s')"
    and "Annotations (ObjectMeta child) pathPrefixAnnotation = None
         \<or> Annotations (ObjectMeta child) pathPrefixAnnotation = Some []"
  shows "\<exists>parent includes' w.
      getParentProxy r s (parentRefOf child) = Inr parent
    \<and> Update (Client r) s (withIncludes parent includes') oyako = (Inr w, s')
    \<and> 0 \<le> findIncludeRef includes' (ObjectMeta child)
    \<and> nat (findIncludeRef includes' (ObjectMeta child)) < length includes'
    \<and> map Prefix (Conditions (includes' ! nat (findIncludeRef includes' (ObjectMeta child))))
        = [CHR ''/'' # ObjectMeta.Name (ObjectMeta child)]"
proof -
  from reconcileParentProxy_success [OF assms(1)] obtain parent w where
    g: "getParentProxy r s (parentRefOf child) = Inr parent"
    and u: "Update (Client r) s (withIncludes parent (mergedIncludes (Includes (Spec parent)) child)) oyako
          = (Inr w, s')" by blast
  have d: "desiredPrefix child = CHR ''/'' # ObjectMeta.Name (ObjectMeta child)"
    using assms(2) by (auto simp: desiredPrefix_def)
  let ?L' = "mergedIncludes (Includes (Spec parent)) child"
  from mergedIncludes_entry [of "Includes (Spec parent)" child]
  have e: "0 \<le> findIncludeRef ?L' (ObjectMeta child)"
      "nat (findIncludeRef ?L' (ObjectMeta child)) < length ?L'"
      "Conditions (?L' ! nat (findIncludeRef ?L' (ObjectMeta child))) = prefixEntry child"
    by simp_all
  have p: "map Prefix (Conditions (?L' ! nat (findIncludeRef ?L' (ObjectMeta child))))
        = [CHR ''/'' # ObjectMeta.Name (ObjectMeta child)]"
    unfolding e(3) by (simp add: prefixEntry_def d)
  show ?thesis
    by (rule exI [of _ parent], rule exI [of _ "?L'"], rule exI [of _ w]) (simp only: g u e(1,2) p)
qed

theorem C6_default_prefix_witness:
  "reconcileParentProxy memReconciler [rootWith [hoge]] (blog [])
     = (True, None, [rootWith [hoge, includeOf ''blog-team'' ''blog'' ''/blog'']])
   \<and> Annotations (ObjectMeta (blog [])) pathPrefixAnnotation = None
   \<and> (\<exists>parent includes' w.
       getParentProxy memReconciler [rootWith [hoge]] (parentRefOf (blog [])) = Inr parent
       \<and> Update (Client memReconciler) [rootWith [hoge]] (withIncludes parent includes') oyako = (Inr w, [rootWith [hoge, includeOf ''blog-team'' ''blog'' ''/blog'']])
       \<and> 0 \<le> findIncludeRef includes' (ObjectMeta (blog []))
       \<and> nat (findIncludeRef includes' (ObjectMeta (blog []))) < length includes'
       \<and> map Prefix (Conditions (includes' ! nat (findIncludeRef includes' (ObjectMeta (blog [])))))
       = [CHR ''/'' # ObjectMeta.Name (ObjectMeta (blog []))])"
proof -
  have h: "reconcileParentProxy memReconciler [rootWith [hoge]] (blog [])
     = (True, None, [rootWith [hoge, includeOf ''blog-team'' ''blog'' ''/blog'']])"
    by (simp add: example_defs controller_defs)
  have n: "Annotations (ObjectMeta (blog [])) pathPrefixAnnotation = None"
    by (simp add: example_defs)
  show ?thesis by (intro conjI h n C6_default_prefix [OF h disjI1 [OF n]])
qed

subsection \<open>C7: removal of the include of a child\<close>

text \<open>
  Claim C7. The parent named by the child is fetched and allows inclusion. If its list
  has no include of the child, \<^verbatim>\<open>cleanupParentProxy\<close> succeeds and returns the store it
  was given: no update, no error. If the list has an include of the child, it splits
  into the includes before the first include of the child, that include, and the
  includes after it; the parent is updated with the first part followed by the last, so
  that one include is cut out and the others keep their order, and the outcome of the
  cleanup is that of the update.
\<close>

theorem C7_remove:
  assumes "getParentProxy r s (parentRefOf child) = Inr parent"
    and "allowsInclusion parent"
  shows "((\<forall>x\<in>set (Includes (Spec parent)). \<not> sameIdentity (ObjectMeta child) x)
            \<longrightarrow> cleanupParentProxy r s child = (None, s))
       \<and> ((\<exists>x\<in>set (Includes (Spec parent)). sameIdentity (ObjectMeta child) x)
            \<longrightarrow> (\<exists>pre x post. Includes (Spec parent) = pre @ x # post
                   \<and> sameIdentity (ObjectMeta child) x
                   \<and> (\<forall>y\<in>set pre. \<not> sameIdentity (ObjectMeta child) y)
                   \<and> cleanupParentProxy r s child =
                       (case Update (Client r) s (withIncludes parent (pre @ post)) oyako of
                          (Inl err, s') \<Rightarrow> (Some err, s')
                        | (Inr w, s') \<Rightarrow> (None, s'))))"
proof (intro conjI impI)
  assume "\<forall>x\<in>set (Includes (Spec parent)). \<not> sameIdentity (ObjectMeta child) x"
  then show "cleanupParentProxy r s child = (None, s)"
    using assms by (simp add: cleanupParentProxy_run findIncludeRef_eq)
next
  let ?m = "ObjectMeta child"
  let ?L = "Includes (Spec parent)"
  let ?pre = "takeWhile (\<lambda>x. \<not> sameIdentity ?m x) ?L"
  let ?x = "hd (dropWhile (\<lambda>x. \<not> sameIdentity ?m x) ?L)"
  let ?post = "tl (dropWhile (\<lambda>x. \<not> sameIdentity ?m x) ?L)"
  assume ex: "\<exists>x\<in>set ?L. sameIdentity ?m x"
  from split_first [OF ex] have sp: "?L = ?pre @ ?x # ?post" and sx: "sameIdentity ?m ?x"
    by blast+
  have np: "\<forall>y\<in>set ?pre. \<not> sameIdentity ?m y" by (auto dest: set_takeWhileD)
  have idx: "findIncludeRef ?L ?m = int (length ?pre)"
    by (rule findIncludeRef_first [OF sp sx np])
  have "take (length ?pre) (?pre @ ?x # ?post) @ drop (Suc (length ?pre)) (?pre @ ?x # ?post)
          = ?pre @ ?post" by simp
  then have td: "take (length ?pre) ?L @ drop (Suc (length ?pre)) ?L = ?pre @ ?post"
    using sp by metis
  have "cleanupParentProxy r s child =
          (case Update (Client r) s (withIncludes parent (?pre @ ?post)) oyako of
             (Inl err, s') \<Rightarrow> (Some err, s')
           | (Inr w, s') \<Rightarrow> (None, s'))"
    using assms td by (simp add: cleanupParentProxy_run idx nat_add_distrib)
  with sp sx np show "\<exists>pre x post. ?L = pre @ x # post \<and> sameIdentity ?m x
                   \<and> (\<forall>y\<in>set pre. \<not> sameIdentity ?m y)
                   \<and> cleanupParentProxy r s child =
                       (case Update (Client r) s (withIncludes parent (pre @ post)) oyako of
                          (Inl err, s') \<Rightarrow> (Some err, s')
                        | (Inr w, s') \<Rightarrow> (None, s'))" by blast
qed

theorem C7_remove_witness:
  "getParentProxy memReconciler [rootWith [hoge, includeOf ''blog-team'' ''blog'' ''/blog'', includeOf ''sales-team'' ''sales'' ''/sales'']] (parentRefOf (blog []))
     = Inr (rootWith [hoge, includeOf ''blog-team'' ''blog'' ''/blog'', includeOf ''sales-team'' ''sales'' ''/sales''])
   \<and> allowsInclusion (rootWith [hoge, includeOf ''blog-team'' ''blog'' ''/blog'', includeOf ''sales-team'' ''sales'' ''/sales''])
   \<and> (\<exists>x\<in>set (Includes (Spec (rootWith [hoge, includeOf ''blog-team'' ''blog'' ''/blog'', includeOf ''sales-team'' ''sales'' ''/sales'']))). sameIdentity (ObjectMeta (blog [])) x)
   \<and> (\<exists>pre x post. Includes (Spec (rootWith [hoge, includeOf ''blog-team'' ''blog'' ''/blog'', includeOf ''sales-team'' ''sales'' ''/sales''])) = pre @ x # post
       \<and> sameIdentity (ObjectMeta (blog [])) x
       \<and> (\<forall>y\<in>set pre. \<not> sameIdentity (ObjectMeta (blog [])) y)
       \<and> cleanupParentProxy memReconciler [rootWith [hoge, includeOf ''blog-team'' ''blog'' ''/blog'', includeOf ''sales-team'' ''sales'' ''/sales'']] (blog []) =
       (case Update (Client memReconciler) [rootWith [hoge, includeOf ''blog-team'' ''blog'' ''/blog'', includeOf ''sales-team'' ''sales'' ''/sales'']] (withIncludes (rootWith [hoge, includeOf ''blog-team'' ''blog'' ''/blog'', includeOf ''sales-team'' ''sales'' ''/sales'']) (pre @ post)) oyako of
       (Inl err, s') \<Rightarrow> (Some err, s')
       | (Inr w, s') \<Rightarrow> (None, s')))
   \<and> getParentProxy memReconciler [rootWith [hoge]] (parentRefOf (blog [])) = Inr (rootWith [hoge])
   \<and> cleanupParentProxy memReconciler [rootWith [hoge]] (blog []) = (None, [rootWith [hoge]])"
proof -
  have g: "getParentProxy memReconciler [rootWith [hoge, includeOf ''blog-team'' ''blog'' ''/blog'', includeOf ''sales-team'' ''sales'' ''/sales'']] (parentRefOf (blog []))
     = Inr (rootWith [hoge, includeOf ''blog-team'' ''blog'' ''/blog'', includeOf ''sales-team'' ''sales'' ''/sales''])"
    by (simp add: example_defs getParentProxy_def)
  have a: "allowsInclusion (rootWith [hoge, includeOf ''blog-team'' ''blog'' ''/blog'', includeOf ''sales-team'' ''sales'' ''/sales''])"
    by (simp add: example_defs)
  have e: "\<exists>x\<in>set (Includes (Spec (rootWith [hoge, includeOf ''blog-team'' ''blog'' ''/blog'', includeOf ''sales-team'' ''sales'' ''/sales'']))). sameIdentity (ObjectMeta (blog [])) x"
    by (simp add: example_defs)
  from C7_remove [OF g a] e
  have r: "(\<exists>pre x post. Includes (Spec (rootWith [hoge, includeOf ''blog-team'' ''blog'' ''/blog'', includeOf ''sales-team'' ''sales'' ''/sales''])) = pre @ x # post
           \<and> sameIdentity (ObjectMeta (blog [])) x
           \<and> (\<forall>y\<in>set pre. \<not> sameIdentity (ObjectMeta (blog [])) y)
           \<and> cleanupParentProxy memReconciler [rootWith [hoge, includeOf ''blog-team'' ''blog'' ''/blog'', includeOf ''sales-team'' ''sales'' ''/sales'']] (blog []) =
           (case Update (Client memReconciler) [rootWith [hoge, includeOf ''blog-team'' ''blog'' ''/blog'', includeOf ''sales-team'' ''sales'' ''/sales'']] (withIncludes (rootWith [hoge, includeOf ''blog-team'' ''blog'' ''/blog'', includeOf ''sales-team'' ''sales'' ''/sales'']) (pre @ post)) oyako of
           (Inl err, s') \<Rightarrow> (Some err, s')
           | (Inr w, s') \<Rightarrow> (None, s')))" by blast
  have g': "getParentProxy memReconciler [rootWith [hoge]] (parentRefOf (blog [])) = Inr (rootWith [hoge])"
    by (simp add: example_defs getParentProxy_def)
  have a': "allowsInclusion (rootWith [hoge])"
    by (simp add: example_defs)
  have n: "\<forall>x\<in>set (Includes (Spec (rootWith [hoge]))). \<not> sameIdentity (ObjectMeta (blog [])) x"
    by (simp add: example_defs)
  from C7_remove [OF g' a'] n
  have r': "cleanupParentProxy memReconciler [rootWith [hoge]] (blog []) = (None, [rootWith [hoge]])"
    by blast
  show ?thesis by (intro conjI g a e r g' r')
qed

subsection \<open>C8: merging twice\<close>

text \<open>
  Claim C8. On the in-memory store, which returns to the second run the list the first
  run wrote: whatever \<^verbatim>\<open>reconcileParentProxy\<close> returned for a child, running it again
  for the same child on the store it left returns the same outcome and leaves that store
  unchanged. In particular, after a success the second run succeeds and the parent keeps
  the list of the first run, with no second include of the child.
\<close>

theorem C8_merge_idempotent:
  assumes "reconcileParentProxy memReconciler st child = (stop, err, st')"
  shows "reconcileParentProxy memReconciler st' child = (stop, err, st')"
proof (cases "getParentProxy memReconciler st (parentRefOf child)")
  case (Inl e)
  with assms have "st' = st" by (simp add: reconcileParentProxy_parse_error)
  with assms show ?thesis by simp
next
  case (Inr parent)
  let ?L = "Includes (Spec parent)"
  let ?p' = "withIncludes parent (mergedIncludes ?L child)"
  let ?key = "\<lparr>NamespacedName.Namespace = Split (parentRefOf child) CHR ''/'' ! 0,
               NamespacedName.Name = Split (parentRefOf child) CHR ''/'' ! 1\<rparr>"
  from Inr have len: "length (Split (parentRefOf child) CHR ''/'') = 2"
    and get: "memGet st ?key = Inr parent"
    by (auto simp: getParentProxy_mem split: if_splits)
  have key: "objectKey ?p' = ?key" using memGet_Inr [OF get] by simp
  show ?thesis
  proof (cases "allowsInclusion parent
      \<and> \<not> isPrefixDuplicate ?L (ObjectMeta child) (desiredPrefix child)")
    case False
    with assms Inr have "st' = st" by (auto simp: reconcileParentProxy_run split: if_splits)
    with assms show ?thesis by simp
  next
    case True
    let ?f = "\<lambda>h. if objectKey h = ?key then ?p' else h"
    have upd: "Update (Client memReconciler) st ?p' oyako = (Inr ?p', map ?f st)"
      using memUpdate_present [OF get key] by (simp add: memReconciler_def)
    from assms True Inr upd have res: "stop = True" "err = None" "st' = map ?f st"
      by (simp_all add: reconcileParentProxy_run)
    have get': "memGet st' ?key = Inr ?p'"
      unfolding res by (rule memGet_replace [OF get key])
    then have g': "getParentProxy memReconciler st' (parentRefOf child) = Inr ?p'"
      using len by (simp add: getParentProxy_mem)
    have upd': "Update (Client memReconciler) st' ?p' oyako = (Inr ?p', map ?f st')"
      using memUpdate_present [OF get' key] by (simp add: memReconciler_def)
    have idem: "map ?f st' = st'" unfolding res using key by (simp add: o_def)
    show ?thesis
      using True upd' idem
      by (simp add: reconcileParentProxy_run [OF g'] isPrefixDuplicate_merged
          mergedIncludes_idem res(1,2))
  qed
qed

theorem C8_merge_idempotent_witness:
  "reconcileParentProxy memReconciler [rootWith [hoge]] (blog [])
     = (True, None, [rootWith [hoge, includeOf ''blog-team'' ''blog'' ''/blog'']])
   \<and> reconcileParentProxy memReconciler [rootWith [hoge, includeOf ''blog-team'' ''blog'' ''/blog'']] (blog [])
     = (True, None, [rootWith [hoge, includeOf ''blog-team'' ''blog'' ''/blog'']])"
proof -
  have h: "reconcileParentProxy memReconciler [rootWith [hoge]] (blog [])
     = (True, None, [rootWith [hoge, includeOf ''blog-team'' ''blog'' ''/blog'']])"
    by (simp add: example_defs controller_defs)
  show ?thesis by (intro conjI h C8_merge_idempotent [OF h])
qed

subsection \<open>C9: the marker is detached after the removal\<close>

text \<open>
  Claim C9. The request names a child whose deletion is requested and which carries the
  cleanup marker. Either the child names no parent, and the reconciliation does nothing
  at all; or the cleanup of the parent fails, and the reconciliation returns that error with the store the cleanup
  left, without any update of the child; or the cleanup has completed, and only then the
  child is updated without its cleanup marker, on the store the cleanup left. A
  completed cleanup means that the parent was fetched and either has no include of the
  child, the store being untouched, or was updated with success with the first include
  of the child cut out, which leaves no include of the child when the list had at most
  one.
\<close>

theorem C9_cleanup_before_detach:
  assumes "Get (Client r) s (NamespacedName req) = Inr child"
    and "deletionRequested child" and "hasMarker child"
  shows "(parentRefOf child = [] \<and> Reconcile r s req = ((emptyResult, None), s))
       \<or> (\<exists>e s1. cleanupParentProxy r s child = (Some e, s1)
              \<and> Reconcile r s req = ((emptyResult, Some e), s1))
       \<or> (\<exists>parent s1.
             getParentProxy r s (parentRefOf child) = Inr parent
           \<and> cleanupParentProxy r s child = (None, s1)
           \<and> ((\<forall>x\<in>set (Includes (Spec parent)). \<not> sameIdentity (ObjectMeta child) x) \<and> s1 = s
              \<or> (\<exists>pre x post w. Includes (Spec parent) = pre @ x # post
                    \<and> sameIdentity (ObjectMeta child) x
                    \<and> (\<forall>y\<in>set pre. \<not> sameIdentity (ObjectMeta child) y)
                    \<and> (length (filter (sameIdentity (ObjectMeta child)) (Includes (Spec parent))) \<le> 1
                        \<longrightarrow> (\<forall>y\<in>set (pre @ post). \<not> sameIdentity (ObjectMeta child) y))
                    \<and> Update (Client r) s (withIncludes parent (pre @ post)) oyako = (Inr w, s1)))
           \<and> Reconcile r s req =
               (case Update (Client r) s1 (RemoveFinalizer child finalizerName) [] of
                  (Inl err, s2) \<Rightarrow> ((emptyResult, Some err), s2)
                | (Inr w, s2) \<Rightarrow> ((emptyResult, None), s2)))"
proof (cases "parentRefOf child = []")
  case True
  with Reconcile_unmanaged [OF assms(1)] show ?thesis by simp
next
  case False
  with assms(2,3) have tm: "Terminating child" by (simp add: Terminating_def)
  note run = Reconcile_terminating [OF assms(1) tm]
  let ?m = "ObjectMeta child"
  obtain res s1 where c: "cleanupParentProxy r s child = (res, s1)"
    by (cases "cleanupParentProxy r s child")
  show ?thesis
  proof (cases res)
    case (Some e)
    with c have "Reconcile r s req = ((emptyResult, Some e), s1)"
      by (simp add: run)
    with c Some show ?thesis by blast
  next
    case None
    with c have c': "cleanupParentProxy r s child = (None, s1)" by simp
    then have rec: "Reconcile r s req =
               (case Update (Client r) s1 (RemoveFinalizer child finalizerName) [] of
                  (Inl err, s2) \<Rightarrow> ((emptyResult, Some err), s2)
                | (Inr w, s2) \<Rightarrow> ((emptyResult, None), s2))"
      by (simp add: run)
    obtain parent where g: "getParentProxy r s (parentRefOf child) = Inr parent"
      using c' by (cases "getParentProxy r s (parentRefOf child)")
        (simp_all add: cleanupParentProxy_get_error)
    have a: "allowsInclusion parent"
      using c' by (simp add: cleanupParentProxy_run [OF g] split: if_splits)
    let ?L = "Includes (Spec parent)"
    have removed: "(\<forall>x\<in>set ?L. \<not> sameIdentity ?m x) \<and> s1 = s
              \<or> (\<exists>pre x post w. ?L = pre @ x # post
                    \<and> sameIdentity ?m x
                    \<and> (\<forall>y\<in>set pre. \<not> sameIdentity ?m y)
                    \<and> (length (filter (sameIdentity ?m) ?L) \<le> 1
                        \<longrightarrow> (\<forall>y\<in>set (pre @ post). \<not> sameIdentity ?m y))
                    \<and> Update (Client r) s (withIncludes parent (pre @ post)) oyako = (Inr w, s1))"
    proof (cases "\<exists>x\<in>set ?L. sameIdentity ?m x")
      case False
      then have "cleanupParentProxy r s child = (None, s)"
        using g a by (simp add: cleanupParentProxy_run findIncludeRef_eq)
      with c' False show ?thesis by simp
    next
      case True
      let ?pre = "takeWhile (\<lambda>x. \<not> sameIdentity ?m x) ?L"
      let ?x = "hd (dropWhile (\<lambda>x. \<not> sameIdentity ?m x) ?L)"
      let ?post = "tl (dropWhile (\<lambda>x. \<not> sameIdentity ?m x) ?L)"
      from split_first [OF True] have sp: "?L = ?pre @ ?x # ?post" and sx: "sameIdentity ?m ?x"
        by blast+
      have np: "\<forall>y\<in>set ?pre. \<not> sameIdentity ?m y" by (auto dest: set_takeWhileD)
      have idx: "findIncludeRef ?L ?m = int (length ?pre)"
        by (rule findIncludeRef_first [OF sp sx np])
      have "take (length ?pre) (?pre @ ?x # ?post) @ drop (Suc (length ?pre)) (?pre @ ?x # ?post)
              = ?pre @ ?post" by simp
      then have td: "take (length ?pre) ?L @ drop (Suc (length ?pre)) ?L = ?pre @ ?post"
        using sp by metis
      have cut: "cleanupParentProxy r s child =
              (case Update (Client r) s (withIncludes parent (?pre @ ?post)) oyako of
                 (Inl err, s') \<Rightarrow> (Some err, s')
               | (Inr w, s') \<Rightarrow> (None, s'))"
        using g a td by (simp add: cleanupParentProxy_run idx nat_add_distrib)
      obtain w where u: "Update (Client r) s (withIncludes parent (?pre @ ?post)) oyako = (Inr w, s1)"
        using c' unfolding cut
        by (cases "Update (Client r) s (withIncludes parent (?pre @ ?post)) oyako")
          (auto split: sum.splits)
      have uniq: "length (filter (sameIdentity ?m) ?L) \<le> 1
                   \<longrightarrow> (\<forall>y\<in>set (?pre @ ?post). \<not> sameIdentity ?m y)"
        using excise_unique [of "sameIdentity ?m" ?pre ?x ?post] sx sp by metis
      from sp sx np uniq u show ?thesis by blast
    qed
    from g c' removed rec show ?thesis by blast
  qed
qed

theorem C9_cleanup_before_detach_witness:
  "Get (Client memReconciler) [rootWith [hoge, includeOf ''blog-team'' ''blog'' ''/blog''], deleted (blog [])]
     (NamespacedName (requestFor (blog []))) = Inr (deleted (blog []))
   \<and> deletionRequested (deleted (blog []))
   \<and> hasMarker (deleted (blog []))
   \<and> parentRefOf (deleted (blog [])) = ''root/example''
   \<and> Reconcile memReconciler [rootWith [hoge, includeOf ''blog-team'' ''blog'' ''/blog''], deleted (blog [])] (requestFor (blog []))
       = ((emptyResult, None), [rootWith [hoge], RemoveFinalizer (deleted (blog [])) finalizerName])
   \<and> ((parentRefOf (deleted (blog [])) = [] \<and> Reconcile memReconciler [rootWith [hoge, includeOf ''blog-team'' ''blog'' ''/blog''], deleted (blog [])] (requestFor (blog [])) = ((emptyResult, None), [rootWith [hoge, includeOf ''blog-team'' ''blog'' ''/blog''], deleted (blog [])]))
       \<or> (\<exists>e s1. cleanupParentProxy memReconciler [rootWith [hoge, includeOf ''blog-team'' ''blog'' ''/blog''], deleted (blog [])] (deleted (blog [])) = (Some e, s1)
       \<and> Reconcile memReconciler [rootWith [hoge, includeOf ''blog-team'' ''blog'' ''/blog''], deleted (blog [])] (requestFor (blog [])) = ((emptyResult, Some e), s1))
       \<or> (\<exists>parent s1.
       getParentProxy memReconciler [rootWith [hoge, includeOf ''blog-team'' ''blog'' ''/blog''], deleted (blog [])] (parentRefOf (deleted (blog []))) = Inr parent
       \<and> cleanupParentProxy memReconciler [rootWith [hoge, includeOf ''blog-team'' ''blog'' ''/blog''], deleted (blog [])] (deleted (blog [])) = (None, s1)
       \<and> ((\<forall>x\<in>set (Includes (Spec parent)). \<not> sameIdentity (ObjectMeta (deleted (blog []))) x) \<and> s1 = [rootWith [hoge, includeOf ''blog-team'' ''blog'' ''/blog''], deleted (blog [])]
       \<or> (\<exists>pre x post w. Includes (Spec parent) = pre @ x # post
       \<and> sameIdentity (ObjectMeta (deleted (blog []))) x
       \<and> (\<forall>y\<in>set pre. \<not> sameIdentity (ObjectMeta (deleted (blog []))) y)
       \<and> (length (filter (sameIdentity (ObjectMeta (deleted (blog [])))) (Includes (Spec parent))) \<le> 1
       \<longrightarrow> (\<forall>y\<in>set (pre @ post). \<not> sameIdentity (ObjectMeta (deleted (blog []))) y))
       \<and> Update (Client memReconciler) [rootWith [hoge, includeOf ''blog-team'' ''blog'' ''/blog''], deleted (blog [])] (withIncludes parent (pre @ post)) oyako = (Inr w, s1)))
       \<and> Reconcile memReconciler [rootWith [hoge, includeOf ''blog-team'' ''blog'' ''/blog''], deleted (blog [])] (requestFor (blog [])) =
       (case Update (Client memReconciler) s1 (RemoveFinalizer (deleted (blog [])) finalizerName) [] of
       (Inl err, s2) \<Rightarrow> ((emptyResult, Some err), s2)
       | (Inr w, s2) \<Rightarrow> ((emptyResult, None), s2))))"
proof -
  have k: "Get (Client memReconciler) [rootWith [hoge, includeOf ''blog-team'' ''blog'' ''/blog''], deleted (blog [])]
     (NamespacedName (requestFor (blog []))) = Inr (deleted (blog []))"
    by (simp add: example_defs)
  have t: "deletionRequested (deleted (blog []))"
    by (simp add: example_defs)
  have m: "hasMarker (deleted (blog []))"
    by (simp add: example_defs)
  have p: "parentRefOf (deleted (blog [])) = ''root/example''"
    by (simp add: example_defs)
  have r: "Reconcile memReconciler [rootWith [hoge, includeOf ''blog-team'' ''blog'' ''/blog''], deleted (blog [])] (requestFor (blog []))
       = ((emptyResult, None), [rootWith [hoge], RemoveFinalizer (deleted (blog [])) finalizerName])"
    by (simp add: example_defs controller_defs)
  show ?thesis by (intro conjI k t m p r C9_cleanup_before_detach [OF k t m])
qed

subsection \<open>C10: one condition, the desired prefix\<close>

text \<open>
  Claim C10. After a successful merge the include of the child in the list written to
  the parent has exactly one condition: the desired prefix, with no header condition.
  This does not depend on the conditions the include had before; an older include of
  the child loses all of them.
\<close>

theorem C10_single_prefix_condition:
  assumes "reconcileParentProxy r s child = (True, None, s')"
  shows "\<exists>parent includes' w.
      getParentProxy r s (parentRefOf child) = Inr parent
    \<and> Update (Client r) s (withIncludes parent includes') oyako = (Inr w, s')
    \<and> 0 \<le> findIncludeRef includes' (ObjectMeta child)
    \<and> nat (findIncludeRef includes' (ObjectMeta child)) < length includes'
    \<and> Conditions (includes' ! nat (findIncludeRef includes' (ObjectMeta child)))
        = [\<lparr>Prefix = desiredPrefix child, Header = None\<rparr>]"
proof -
  from reconcileParentProxy_success [OF assms] obtain parent w where
    g: "getParentProxy r s (parentRefOf child) = Inr parent"
    and u: "Update (Client r) s (withIncludes parent (mergedIncludes (Includes (Spec parent)) child)) oyako
          = (Inr w, s')" by blast
  from g u mergedIncludes_entry [of "Includes (Spec parent)" child]
  show ?thesis unfolding prefixEntry_def by blast
qed

theorem C10_single_prefix_condition_witness:
  "reconcileParentProxy memReconciler [rootWith [hoge, blogHeader]] (blog ''/blog'')
     = (True, None, [rootWith [hoge, includeOf ''blog-team'' ''blog'' ''/blog'']])
   \<and> (\<exists>parent includes' w.
       getParentProxy memReconciler [rootWith [hoge, blogHeader]] (parentRefOf (blog ''/blog'')) = Inr parent
       \<and> Update (Client memReconciler) [rootWith [hoge, blogHeader]] (withIncludes parent includes') oyako = (Inr w, [rootWith [hoge, includeOf ''blog-team'' ''blog'' ''/blog'']])
       \<and> 0 \<le> findIncludeRef includes' (ObjectMeta (blog ''/blog''))
       \<and> nat (findIncludeRef includes' (ObjectMeta (blog ''/blog''))) < length includes'
       \<and> Conditions (includes' ! nat (findIncludeRef includes' (ObjectMeta (blog ''/blog''))))
       = [\<lparr>Prefix = desiredPrefix (blog ''/blog''), Header = None\<rparr>])"
proof -
  have h: "reconcileParentProxy memReconciler [rootWith [hoge, blogHeader]] (blog ''/blog'')
     = (True, None, [rootWith [hoge, includeOf ''blog-team'' ''blog'' ''/blog'']])"
    by (simp add: example_defs controller_defs)
  show ?thesis by (intro conjI h C10_single_prefix_condition [OF h])
qed

end
